theory Spec2Isabelle
  imports Main "HOL-Library.Word"
begin

unbundle bit_operations_syntax

section \<open>Errors\<close>

type_synonym byte = "8 word"
type_synonym u32 = "32 word"
type_synonym u64 = "64 word"

text \<open>
  The error values of the package. \<open>EOF\<close> is \<open>io.EOF\<close>; \<open>ErrTornWrite\<close> is the
  \<open>fmt.Errorf("torn write of ...")\<close> of \<open>framer.frame\<close>; \<open>ErrorPartialFrame n msg\<close> and
  \<open>ErrorChecksum actual got n\<close> are the two error structs of frame.go;
  \<open>ErrSegmentSizeReached\<close> is \<open>errSegmentSizeReached\<close>; \<open>ErrCorruption\<close> and
  \<open>ErrFileName\<close> are the \<open>fmt.Errorf\<close> values of \<open>findSegments\<close> and \<open>getSeqInd\<close>;
  \<open>ErrIO c\<close> is any other error of the operating system, with a code.

  \<open>Panic\<close> is not an error value of the program: it marks a run-time panic (a slice
  bound out of range, a nil pointer). A call that panics returns nothing; in the model
  its result carries \<open>Some Panic\<close> where the error would be, the other components of
  that result mean nothing, and every caller stops and passes \<open>Some Panic\<close> on.
\<close>

datatype err =
    EOF
  | ErrTornWrite string
  | ErrorPartialFrame int string
  | ErrorChecksum u32 u32 int
  | ErrSegmentSizeReached
  | ErrCorruption string
  | ErrFileName
  | ErrLocked
  | ErrIO nat
  | Panic

section \<open>Frame codec (frame.go)\<close>

subsection \<open>The standard library pieces the codec calls\<close>

text \<open>
  \<open>hash/crc32\<close> with \<open>crc32.MakeTable(crc32.Castagnoli)\<close>: CRC-32C, reflected polynomial
  \<open>0x82F63B78\<close>, processed bit by bit (the table of the library holds \<open>crc_bit\<close> iterated
  eight times). The digest \<open>crc32.New\<close> holds the finished sum, starting at 0;
  \<open>Write\<close> complements it, feeds the bytes and complements again; \<open>Sum32\<close> reads it.
\<close>

definition castagnoli :: u32 where
  "castagnoli = 0x82F63B78"

definition crc_bit :: "u32 \<Rightarrow> u32" where
  "crc_bit s = (if bit s 0 then drop_bit 1 s XOR castagnoli else drop_bit 1 s)"

definition crc_byte :: "u32 \<Rightarrow> byte \<Rightarrow> u32" where
  "crc_byte s v = (crc_bit ^^ 8) (s XOR ucast v)"

definition crc_update :: "u32 \<Rightarrow> byte list \<Rightarrow> u32" where
  "crc_update crc p = NOT (foldl crc_byte (NOT crc) p)"

text \<open>\<open>binary.LittleEndian\<close>: \<open>PutUint64\<close>, \<open>PutUint32\<close>, \<open>Uint64\<close>, \<open>Uint32\<close>.\<close>

definition putUint64 :: "u64 \<Rightarrow> byte list" where
  "putUint64 w = map (\<lambda>i. ucast (drop_bit (8 * i) w)) [0..<8]"

definition putUint32 :: "u32 \<Rightarrow> byte list" where
  "putUint32 w = map (\<lambda>i. ucast (drop_bit (8 * i) w)) [0..<4]"

fun le_uint64 :: "byte list \<Rightarrow> u64" where
  "le_uint64 [] = 0"
| "le_uint64 (b # bs) = ucast b OR push_bit 8 (le_uint64 bs)"

fun le_uint32 :: "byte list \<Rightarrow> u32" where
  "le_uint32 [] = 0"
| "le_uint32 (b # bs) = ucast b OR push_bit 8 (le_uint32 bs)"

text \<open>
  \<open>io.Writer\<close> and \<open>io.Reader\<close> are interfaces: the codec is given the method. A writer
  takes its state and the bytes and returns the count written, the error and its new
  state; a reader takes its state and the length of the slice to fill and returns the
  bytes read (their number is \<open>n\<close>), the error and its new state.
\<close>

type_synonym 'w writer = "'w \<Rightarrow> byte list \<Rightarrow> int \<times> err option \<times> 'w"
type_synonym 'r reader = "'r \<Rightarrow> nat \<Rightarrow> byte list \<times> err option \<times> 'r"

text \<open>
  \<open>bytes.Buffer\<close>, the writer and reader of the package's codec test: \<open>Write\<close> appends
  and never fails; \<open>Read\<close> on an empty buffer returns \<open>io.EOF\<close> unless the slice to fill
  is empty, and otherwise hands out as many bytes as it has, up to the slice length.
\<close>

definition bufWrite :: "byte list writer" where
  "bufWrite w p = (int (length p), None, w @ p)"

definition bufRead :: "byte list reader" where
  "bufRead r k =
     (if r = [] then (if k = 0 then ([], None, r) else ([], Some EOF, r))
      else (take k r, None, drop k r))"

subsection \<open>Frame sizes\<close>

text \<open>
  Go's \<open>int\<close> has 64 bits and its arithmetic wraps around: a value of type \<open>int\<close>
  is an \<open>int\<close> from \<open>-2^63\<close> up to \<open>2^63 - 1\<close>, and \<open>wrap64\<close> brings the exact result
  of \<open>+\<close> or \<open>-\<close> back into that range. Go's \<open>%\<close> truncates towards zero.
\<close>

definition wrap64 :: "int \<Rightarrow> int" where
  "wrap64 x = signed_take_bit 63 x"

definition go_rem :: "int \<Rightarrow> int \<Rightarrow> int" where
  "go_rem a b = sgn a * (\<bar>a\<bar> mod \<bar>b\<bar>)"

text \<open>\<open>encodeFrameSize(nBytes uint32) (lenField uint64, padLen uint8)\<close>\<close>

definition encodeFrameSize :: "u32 \<Rightarrow> u64 \<times> byte" where
  "encodeFrameSize nBytes =
     (let lenField = (ucast nBytes :: u64);
          padLen = (ucast (8 - (nBytes mod 8)) :: byte)
      in if padLen \<noteq> 0
         then (lenField OR push_bit 56 (ucast (0x80 OR padLen) :: u64), padLen)
         else (lenField, padLen))"

text \<open>\<open>frameSize(dataLen int) int\<close>\<close>

definition frameSize :: "int \<Rightarrow> int" where
  "frameSize dataLen =
     (let padLen = wrap64 (8 - go_rem dataLen 8)
      in wrap64 (wrap64 (8 + 4 + dataLen) + padLen))"

subsection \<open>framer\<close>

text \<open>
  The framer's state: the rolling digest and the byte count. Its three buffers are
  scratch space; \<open>padBuf\<close> is never written, so the padding is zero bytes. The counts
  \<open>nn\<close> and \<open>nBytes\<close> are Go \<open>int\<close>s, and so is the count a writer returns.
\<close>

record framer =
  f_crc :: u32
  f_nBytes :: int

definition newFramer :: framer where
  "newFramer = \<lparr>f_crc = 0, f_nBytes = 0\<rparr>"

definition frame :: "'w writer \<Rightarrow> framer \<Rightarrow> 'w \<Rightarrow> byte list \<Rightarrow> (int \<times> err option) \<times> framer \<times> 'w" where
  "frame wr f w dat =
     (let (lenField, padLen) = encodeFrameSize (of_nat (length dat));
          checksum = crc_update (f_crc f) dat;
          f0 = f\<lparr>f_crc := checksum\<rparr>;
          (n1, e1, w1) = wr w (putUint64 lenField);
          nn1 = n1;
          f1 = f0\<lparr>f_nBytes := wrap64 (f_nBytes f0 + n1)\<rparr>
      in if n1 \<noteq> 8 then ((nn1, Some (ErrTornWrite ''lenField'')), f1, w1)
         else if e1 \<noteq> None then ((nn1, e1), f1, w1)
         else
          let (n2, e2, w2) = wr w1 (putUint32 checksum);
              nn2 = wrap64 (nn1 + n2);
              f2 = f1\<lparr>f_nBytes := wrap64 (f_nBytes f1 + n2)\<rparr>
          in if n2 \<noteq> 4 then ((nn2, Some (ErrTornWrite ''checksum'')), f2, w2)
             else if e2 \<noteq> None then ((nn2, e2), f2, w2)
             else
              let (n3, e3, w3) = wr w2 dat;
                  nn3 = wrap64 (nn2 + n3);
                  f3 = f2\<lparr>f_nBytes := wrap64 (f_nBytes f2 + n3)\<rparr>
              in if n3 \<noteq> int (length dat) then ((nn3, Some (ErrTornWrite ''data'')), f3, w3)
                 else if e3 \<noteq> None then ((nn3, e3), f3, w3)
                 else if padLen \<noteq> 0 then
                  let (n4, e4, w4) = wr w3 (replicate (unat padLen) 0);
                      nn4 = wrap64 (nn3 + n4);
                      f4 = f3\<lparr>f_nBytes := wrap64 (f_nBytes f3 + n4)\<rparr>
                  in if n4 \<noteq> int (unat padLen) then ((nn4, Some (ErrTornWrite ''padding'')), f4, w4)
                     else if e4 \<noteq> None then ((nn4, e4), f4, w4)
                     else ((nn4, None), f4, w4)
                 else ((nn3, None), f3, w3))"

subsection \<open>deframer\<close>

record deframer =
  d_crc :: u32
  d_nBytes :: int

definition newDeframer :: deframer where
  "newDeframer = \<lparr>d_crc = 0, d_nBytes = 0\<rparr>"

text \<open>\<open>decodeFrameSize(lenFieldBuf [8]byte) (nBytes uint32, padLen uint8)\<close>\<close>

definition decodeFrameSize :: "byte list \<Rightarrow> u32 \<times> byte" where
  "decodeFrameSize lenFieldBuf =
     (let lenField = le_uint64 lenFieldBuf;
          nBytes = (ucast lenField :: u32)
      in if lenField AND push_bit 63 1 = push_bit 63 1
         then (nBytes, ucast (drop_bit 56 (lenField XOR push_bit 63 1)))
         else (nBytes, 0))"

text \<open>
  \<open>deframe\<close> returns the data (\<open>[]\<close> for \<open>nil\<close>), the count \<open>nn\<close> and the error, with
  the new deframer and reader states. \<open>padBuf\<close> is an array of 8 bytes: when the
  checksum matched and the length field gives a padding longer than 8, the slice
  expression \<open>d.padBuf[:padLen]\<close> panics before anything is read.
\<close>

definition deframe :: "'r reader \<Rightarrow> deframer \<Rightarrow> 'r \<Rightarrow> (byte list \<times> int \<times> err option) \<times> deframer \<times> 'r" where
  "deframe rd d r =
     (let (b1, e1, r1) = rd r 8;
          nn1 = int (length b1);
          d1 = d\<lparr>d_nBytes := d_nBytes d + int (length b1)\<rparr>
      in if e1 \<noteq> None then (([], nn1, e1), d1, r1)
         else if length b1 \<noteq> 8 then (([], nn1, Some (ErrorPartialFrame nn1 ''lenField is torn'')), d1, r1)
         else
          let (nBytes, padLen) = decodeFrameSize b1;
              (b2, e2, r2) = rd r1 4;
              nn2 = nn1 + int (length b2);
              d2 = d1\<lparr>d_nBytes := d_nBytes d1 + int (length b2)\<rparr>
          in if e2 \<noteq> None then
               (if e2 = Some EOF then (([], nn2, Some (ErrorPartialFrame nn2 ''checksum is torn'')), d2, r2)
                else (([], nn2, e2), d2, r2))
             else if length b2 \<noteq> 4 then (([], nn2, Some (ErrorPartialFrame nn2 ''checksum is torn'')), d2, r2)
             else
              let checksum = le_uint32 b2;
                  (dat, e3, r3) = rd r2 (unat nBytes);
                  nn3 = nn2 + int (length dat);
                  d3 = d2\<lparr>d_nBytes := d_nBytes d2 + int (length dat)\<rparr>
              in if e3 \<noteq> None then
                   (if e3 = Some EOF then (([], nn3, Some (ErrorPartialFrame nn3 ''data is torn'')), d3, r3)
                    else (([], nn3, e3), d3, r3))
                 else if length dat \<noteq> unat nBytes then (([], nn3, Some (ErrorPartialFrame nn3 ''data is torn'')), d3, r3)
                 else
                  let actualChecksum = crc_update (d_crc d3) dat;
                      d4 = d3\<lparr>d_crc := actualChecksum\<rparr>
                  in if actualChecksum \<noteq> checksum
                     then ((dat, nn3, Some (ErrorChecksum actualChecksum checksum nn3)), d4, r3)
                     else if padLen > 0 then
                      if padLen > 8 then (([], nn3, Some Panic), d4, r3)
                      else
                      let (b4, e4, r4) = rd r3 (unat padLen);
                          nn4 = nn3 + int (length b4);
                          d5 = d4\<lparr>d_nBytes := d_nBytes d4 + int (length b4)\<rparr>
                      in if e4 \<noteq> None then
                           (if e4 = Some EOF then (([], nn4, Some (ErrorPartialFrame nn4 ''padding is torn'')), d5, r4)
                            else (([], nn4, e4), d5, r4))
                         else if length b4 \<noteq> unat padLen then (([], nn4, Some (ErrorPartialFrame nn4 ''padding is torn'')), d5, r4)
                         else ((dat, nn4, None), d5, r4)
                     else ((dat, nn3, None), d4, r3))"

subsection \<open>The codec test's loops (Test_SerDe) and the frame layout\<close>



text \<open>
  The layout in the comment above \<open>framer.frame\<close>: 8 bytes of length field, 4 bytes of
  checksum, the data, the padding; \<open>crc\<close> is the rolling sum before this frame.
\<close>

definition frameBytes :: "u32 \<Rightarrow> byte list \<Rightarrow> byte list" where
  "frameBytes crc dat =
     putUint64 (fst (encodeFrameSize (of_nat (length dat))))
     @ putUint32 (crc_update crc dat)
     @ dat
     @ replicate (unat (snd (encodeFrameSize (of_nat (length dat))))) 0"



text \<open>The type assertion \<open>_, ok := err.(errorChecksum)\<close> and its sibling.\<close>

definition isErrorChecksum :: "err option \<Rightarrow> bool" where
  "isErrorChecksum e = (case e of Some (ErrorChecksum a g n) \<Rightarrow> True | _ \<Rightarrow> False)"

definition isErrorPartialFrame :: "err option \<Rightarrow> bool" where
  "isErrorPartialFrame e = (case e of Some (ErrorPartialFrame n msg) \<Rightarrow> True | _ \<Rightarrow> False)"

section \<open>Segments (segment.go)\<close>

subsection \<open>The operating system's file and \<open>bufio.Reader\<close>\<close>

text \<open>
  An open \<open>os.File\<close>: its contents and its offset. \<open>fl_bad\<close> is the model of a failing
  device: when it is \<open>Some b\<close>, bytes before offset \<open>b\<close> are read normally (a read
  reaching \<open>b\<close> comes back short) and a read starting at or after \<open>b\<close>, inside the
  file, fails with \<open>ErrIO 5\<close> (EIO). \<open>Read\<close> with an empty slice returns \<open>0, nil\<close>; at the
  end of the file it returns \<open>0, io.EOF\<close>.
\<close>

record osfile =
  fl_data :: "byte list"
  fl_off :: int
  fl_bad :: "nat option"

definition fileRead :: "osfile reader" where
  "fileRead f k =
     (let limit = (case fl_bad f of None \<Rightarrow> length (fl_data f)
                                 | Some b \<Rightarrow> min b (length (fl_data f)));
          off = nat (fl_off f)
      in if k = 0 then ([], None, f)
         else if off < limit then
           (let bs = take k (drop off (take limit (fl_data f)))
            in (bs, None, f\<lparr>fl_off := fl_off f + int (length bs)\<rparr>))
         else if off < length (fl_data f) then ([], Some (ErrIO 5), f)
         else ([], Some EOF, f))"

text \<open>
  \<open>f.Seek(delta, io.SeekCurrent)\<close>: the new offset and the error; a negative target is
  refused with \<open>ErrIO 22\<close> (EINVAL) and the offset stays.
\<close>

definition fileSeekCurrent :: "osfile \<Rightarrow> int \<Rightarrow> int \<times> err option \<times> osfile" where
  "fileSeekCurrent f delta =
     (if fl_off f + delta < 0 then (0, Some (ErrIO 22), f)
      else (fl_off f + delta, None, f\<lparr>fl_off := fl_off f + delta\<rparr>))"

text \<open>
  \<open>bufio.Reader\<close> over a file: \<open>br_buf\<close> is the buffered, unread part
  (\<open>b.buf[b.r:b.w]\<close>) and \<open>br_size\<close> is \<open>len(b.buf)\<close>. Its \<open>Read\<close> with an empty slice
  returns \<open>0, nil\<close>; with an empty buffer it reads the file once, straight into the
  caller's slice when that is at least as large as the buffer and into the buffer
  otherwise; then it copies what it has, up to the slice length, without reading again.
  A file never returns bytes together with an error, so no error is ever left pending.
\<close>

record bufio =
  br_buf :: "byte list"
  br_size :: nat

definition bufioRead :: "(bufio \<times> osfile) reader" where
  "bufioRead s k =
     (let (b, f) = s
      in if k = 0 then ([], None, s)
         else if br_buf b = [] then
           (if k \<ge> br_size b then
              (let (bs, e, f') = fileRead f k in (bs, e, (b, f')))
            else
              (let (bs, e, f') = fileRead f (br_size b)
               in if bs = [] then ([], e, (b, f'))
                  else (take k bs, None, (b\<lparr>br_buf := drop k bs\<rparr>, f'))))
         else (take k (br_buf b), None, (b\<lparr>br_buf := drop k (br_buf b)\<rparr>, f)))"

text \<open>\<open>bufio.NewReaderSize(f, size)\<close> (the library's least size is 16) and \<open>Reset\<close>.\<close>

definition newReaderSize :: "int \<Rightarrow> bufio" where
  "newReaderSize sz = \<lparr>br_buf = [], br_size = nat (max sz 16)\<rparr>"

definition bufioReset :: "bufio \<Rightarrow> bufio" where
  "bufioReset b = b\<lparr>br_buf := []\<rparr>"

subsection \<open>segment and segmentReader\<close>

record segment =
  seq :: u64
  ind :: u64
  dir :: string
  sizeHint :: int

record segmentReader =
  sr_segment :: segment
  sr_deframer :: deframer
  sr_f :: osfile
  sr_br :: bufio

text \<open>\<open>deframer.undo\<close> and \<open>segmentReader.undo\<close>; the latter returns the seek's error.\<close>

definition deframer_undo :: "deframer \<Rightarrow> int \<Rightarrow> deframer" where
  "deframer_undo d n = d\<lparr>d_nBytes := d_nBytes d - n\<rparr>"

definition undo :: "segmentReader \<Rightarrow> int \<Rightarrow> err option \<times> segmentReader" where
  "undo sr n =
     (let unreadBytes = int (length (br_buf (sr_br sr)));
          rewind = n + unreadBytes;
          (off, seekErr, f') = fileSeekCurrent (sr_f sr) (- rewind)
      in if seekErr \<noteq> None then (seekErr, sr)
         else (None, sr\<lparr>sr_f := f',
                          sr_deframer := deframer_undo (sr_deframer sr) n,
                          sr_br := bufioReset (sr_br sr)\<rparr>))"

text \<open>\<open>segmentReader.deframe\<close>: the embedded deframer over the buffered reader.\<close>

definition sr_deframe :: "segmentReader \<Rightarrow> (byte list \<times> int \<times> err option) \<times> segmentReader" where
  "sr_deframe sr =
     (let (res, d', (b', f')) = deframe bufioRead (sr_deframer sr) (sr_br sr, sr_f sr)
      in (res, sr\<lparr>sr_deframer := d', sr_br := b', sr_f := f'\<rparr>))"

text \<open>
  The loop of \<open>seekToLastFrame\<close>, with the variables \<open>init\<close> and \<open>ind\<close>. It leaves by
  \<open>break\<close> (\<open>Inr ind\<close>) or by \<open>return 0, 0, err\<close> (\<open>Inl err\<close>). The source's loop has no
  bound; the model counts iterations and is \<open>None\<close> when they run out. When \<open>deframe\<close>
  panics, \<open>Some Panic\<close> reaches the last case and leaves the loop as \<open>Inl Panic\<close>: the
  panic goes on to the caller of \<open>seekToLastFrame\<close>, and nothing is undone.
\<close>

fun seekLoop :: "nat \<Rightarrow> bool \<Rightarrow> u64 \<Rightarrow> segmentReader \<Rightarrow> ((err + u64) \<times> segmentReader) option" where
  "seekLoop 0 init i sr = None"
| "seekLoop (Suc fuel) init i sr =
     (let ((dat, n, e), sr1) = sr_deframe sr
      in if e = Some EOF then Some (Inr i, sr1)
         else if isErrorChecksum e then
           (case undo sr1 n of
              (Some e', sr2) \<Rightarrow> Some (Inl e', sr2)
            | (None, sr2) \<Rightarrow> Some (Inr i, sr2))
         else if isErrorPartialFrame e then
           (case undo sr1 n of
              (Some e', sr2) \<Rightarrow> Some (Inl e', sr2)
            | (None, sr2) \<Rightarrow> Some (Inr i, sr2))
         else (case e of
            Some e' \<Rightarrow> Some (Inl e', sr1)
          | None \<Rightarrow>
             if init then seekLoop fuel False (ind (sr_segment sr1)) sr1
             else seekLoop fuel False (i + 1) sr1))"

text \<open>\<open>seekToLastFrame() (uint64, int64, error)\<close>\<close>

definition seekToLastFrame :: "nat \<Rightarrow> segmentReader \<Rightarrow> ((u64 \<times> int \<times> err option) \<times> segmentReader) option" where
  "seekToLastFrame fuel sr =
     (case seekLoop fuel True 0 sr of
        None \<Rightarrow> None
      | Some (Inl e, sr') \<Rightarrow> Some ((0, 0, Some e), sr')
      | Some (Inr i, sr') \<Rightarrow>
          (let (offset, e, f') = fileSeekCurrent (sr_f sr') 0
           in Some ((i, offset, e), sr'\<lparr>sr_f := f'\<rparr>)))"

text \<open>
  A segment reader as \<open>openPublished\<close> and \<open>_newScratch\<close> make it: a fresh deframer, the
  file at offset 0, the buffered reader reset.
\<close>

definition newSegmentReader :: "segment \<Rightarrow> osfile \<Rightarrow> bufio \<Rightarrow> segmentReader" where
  "newSegmentReader s f br =
     \<lparr>sr_segment = s, sr_deframer = newDeframer, sr_f = f, sr_br = bufioReset br\<rparr>"

text \<open>
  The number of frames the deframer reads before its first error, counted apart from
  the loop: the count the specification speaks of.
\<close>

fun countFrames :: "nat \<Rightarrow> segmentReader \<Rightarrow> nat" where
  "countFrames 0 sr = 0"
| "countFrames (Suc fuel) sr =
     (let ((dat, n, e), sr1) = sr_deframe sr
      in if e = None then Suc (countFrames fuel sr1) else 0)"

text \<open>\<open>os.OpenFile\<close> on an existing file: the offset is 0.\<close>

definition openFile :: "byte list \<Rightarrow> nat option \<Rightarrow> osfile" where
  "openFile content bad = \<lparr>fl_data = content, fl_off = 0, fl_bad = bad\<rparr>"

text \<open>
  The position of the buffered reader in its file, as the deframer sees it: the file's
  offset less what is buffered and unread.
\<close>

definition logicalPos :: "bufio \<times> osfile \<Rightarrow> int" where
  "logicalPos s = fl_off (snd s) - int (length (br_buf (fst s)))"

text \<open>
  What holds of a segment reader throughout a scan that began at offset 0: the buffered
  bytes were read from the file, so they are no more than the offset, and the offset is
  within the file.
\<close>

definition wellPositioned :: "bufio \<times> osfile \<Rightarrow> bool" where
  "wellPositioned s = (0 \<le> logicalPos s \<and> fl_off (snd s) \<le> int (length (fl_data (snd s))))"

subsection \<open>segmentReadWriter\<close>

text \<open>
  The scratch segment's read/writer: the segment and the deframer of the embedded
  \<open>segmentReader\<close>, and the framer. \<open>deframer\<close> and \<open>framer\<close> are pointers, \<open>nil\<close> once
  \<open>publish\<close> has returned: \<open>None\<close>. The file, the buffered reader and writer and the
  directory handle are not fields of the model: the framer's writer is given, as in
  \<open>frame\<close>, and the operations on the handles are given where they are called.
\<close>

record segmentReadWriter =
  srw_segment :: segment
  srw_deframer :: "deframer option"
  srw_framer :: "framer option"

text \<open>
  \<open>segmentReadWriter.frame\<close>. A \<open>nil\<close> framer panics inside \<open>framer.frame\<close>; \<open>||\<close> looks at
  the deframer only when the error is not \<open>io.EOF\<close>, and panics there on a \<open>nil\<close> deframer.
  The sum of the two byte counts is a Go \<open>int\<close>.
\<close>

definition srw_frame :: "'w writer \<Rightarrow> segmentReadWriter \<Rightarrow> 'w \<Rightarrow> byte list \<Rightarrow> (int \<times> err option) \<times> segmentReadWriter \<times> 'w" where
  "srw_frame wr srw w dat =
     (case srw_framer srw of
        None \<Rightarrow> ((0, Some Panic), srw, w)
      | Some f \<Rightarrow>
         (let ((n, e), f', w') = frame wr f w dat;
              srw' = srw\<lparr>srw_framer := Some f'\<rparr>
          in if e = Some EOF then ((n, Some ErrSegmentSizeReached), srw', w')
             else (case srw_deframer srw' of
                None \<Rightarrow> ((n, Some Panic), srw', w')
              | Some d \<Rightarrow>
                 let reachedEnd = (wrap64 (d_nBytes d + f_nBytes f') \<ge> sizeHint (srw_segment srw'))
                 in if reachedEnd then ((n, Some ErrSegmentSizeReached), srw', w')
                    else ((n, e), srw', w'))))"

text \<open>
  A fresh read/writer, as \<open>_newScratch\<close> makes it, and two writers to try \<open>frame\<close> on
  besides \<open>bytes.Buffer\<close>: a device that takes \<open>cap\<close> bytes in all and then writes short
  with \<open>ErrIO 28\<close> (ENOSPC), and a writer that takes every byte and returns \<open>io.EOF\<close>.
\<close>

definition newSegmentReadWriter :: "segment \<Rightarrow> segmentReadWriter" where
  "newSegmentReadWriter s =
     \<lparr>srw_segment = s, srw_deframer = Some newDeframer, srw_framer = Some newFramer\<rparr>"

definition limitedWrite :: "(byte list \<times> nat) writer" where
  "limitedWrite w p =
     (let (buf, cap) = w
      in if length buf + length p \<le> cap then (int (length p), None, (buf @ p, cap))
         else (int (cap - length buf), Some (ErrIO 28), (buf @ take (cap - length buf) p, cap)))"

definition eofWrite :: "byte list writer" where
  "eofWrite w p = (int (length p), Some EOF, w @ p)"

subsection \<open>Segment file names\<close>

text \<open>
  \<open>getSeqInd\<close> searches the path for the regular expression
  \<open>([0-9a-f]{16})-([0-9a-f]{16}).seg\<close>, in which the dot is not escaped: it stands for
  any one character but a newline. Go's \<open>regexp\<close> reads the text as UTF-8, so one
  character is one rune: \<open>runeWidth\<close> is the width \<open>utf8.DecodeRuneInString\<close> gives the
  rune at the head of a non-empty string (1 for a byte that does not begin a well-formed
  encoding).
\<close>

definition runeWidth :: "string \<Rightarrow> nat" where
  "runeWidth s =
     (let b0 = (of_char (s ! 0) :: nat);
          sz = (if b0 < 0xC2 then 1 else if b0 < 0xE0 then 2 else if b0 < 0xF0 then 3
                else if b0 < 0xF5 then 4 else (1::nat));
          lo = (if b0 = 0xE0 then 0xA0 else if b0 = 0xF0 then 0x90 else (0x80::nat));
          hi = (if b0 = 0xED then 0x9F else if b0 = 0xF4 then 0x8F else (0xBF::nat))
      in if sz = 1 then 1
         else if length s < sz then 1
         else if (of_char (s ! 1) :: nat) < lo \<or> hi < (of_char (s ! 1) :: nat) then 1
         else if sz \<le> 2 then 2
         else if (of_char (s ! 2) :: nat) < 0x80 \<or> 0xBF < (of_char (s ! 2) :: nat) then 1
         else if sz \<le> 3 then 3
         else if (of_char (s ! 3) :: nat) < 0x80 \<or> 0xBF < (of_char (s ! 3) :: nat) then 1
         else 4)"

definition isLowerHex :: "char \<Rightarrow> bool" where
  "isLowerHex c = (c \<in> set ''0123456789abcdef'')"

text \<open>
  A match of the expression at the head of the string, with its two groups. The
  expression has one way to match at a given place, and \<open>FindStringSubmatch\<close> returns the
  leftmost match. A match begins with an ASCII digit, which is never inside the encoding
  of a rune, so trying every byte offset from the left finds the same match as trying
  every rune offset.
\<close>

definition matchAt :: "string \<Rightarrow> (string \<times> string) option" where
  "matchAt s =
     (let a = take 16 s; r1 = drop 16 s; b = take 16 (drop 1 r1); r2 = drop 17 r1
      in if length a = 16 \<and> list_all isLowerHex a \<and> take 1 r1 = ''-''
            \<and> length b = 16 \<and> list_all isLowerHex b
            \<and> r2 \<noteq> [] \<and> r2 ! 0 \<noteq> CHR 0x0A
            \<and> take 3 (drop (runeWidth r2) r2) = ''seg''
         then Some (a, b) else None)"

fun findStringSubmatch :: "string \<Rightarrow> (string \<times> string) option" where
  "findStringSubmatch [] = matchAt []"
| "findStringSubmatch (c # cs) =
     (case matchAt (c # cs) of Some m \<Rightarrow> Some m | None \<Rightarrow> findStringSubmatch cs)"

text \<open>
  \<open>strconv.ParseUint(s, 16, 64)\<close> on a group of the match: sixteen digits of \<open>0-9a-f\<close>, on
  which it cannot fail, so that the error \<open>getSeqInd\<close> drops is always \<open>nil\<close>.
\<close>

definition hexVal :: "char \<Rightarrow> nat" where
  "hexVal c = (if (of_char c :: nat) < 58 then of_char c - 48 else of_char c - 87)"

definition parseUint :: "string \<Rightarrow> u64" where
  "parseUint s = of_nat (foldl (\<lambda>n c. 16 * n + hexVal c) 0 s)"

definition getSeqInd :: "string \<Rightarrow> u64 \<times> u64 \<times> err option" where
  "getSeqInd fName =
     (case findStringSubmatch fName of
        None \<Rightarrow> (0, 0, Some ErrFileName)
      | Some (a, b) \<Rightarrow> (parseUint a, parseUint b, None))"

subsection \<open>Listing the two directories\<close>

text \<open>
  What \<open>getSegmentPaths\<close> asks of the operating system and of \<open>path/filepath\<close>:
  \<^item> \<open>os_notExist p\<close>: \<open>os.IsNotExist\<close> of the error of \<open>os.Stat(p)\<close>;
  \<^item> \<open>os_walk p\<close>: the run of \<open>filepath.Walk(p, f)\<close> for the walk function of
    \<open>getSegmentPaths\<close>, which returns the error it is handed, accepts the first directory,
    answers \<open>SkipDir\<close> to every other directory and looks at the name of everything else.
    The run is given by the paths of the non-directories handed to the function without
    an error, in the order of the walk, up to the first error, and by that error, which
    \<open>Walk\<close> returns;
  \<^item> \<open>os_clean\<close>: \<open>filepath.Clean\<close>.
\<close>

record dirOS =
  os_notExist :: "string \<Rightarrow> bool"
  os_walk :: "string \<Rightarrow> string list \<times> err option"
  os_clean :: "string \<Rightarrow> string"

text \<open>
  \<open>filepath.Ext\<close> (the separator is \<open>/\<close>): from the end of the path back to a dot, giving
  up at a separator.
\<close>

definition ext :: "string \<Rightarrow> string" where
  "ext path =
     (let r = dropWhile (\<lambda>c. c \<noteq> CHR ''.'' \<and> c \<noteq> CHR ''/'') (rev path)
      in if r \<noteq> [] \<and> hd r = CHR ''.''
         then CHR ''.'' # rev (takeWhile (\<lambda>c. c \<noteq> CHR ''.'' \<and> c \<noteq> CHR ''/'') (rev path))
         else [])"

text \<open>\<open>sort.Strings\<close>: Go compares strings byte by byte.\<close>

fun strLess :: "string \<Rightarrow> string \<Rightarrow> bool" where
  "strLess [] [] = False"
| "strLess [] (y # ys) = True"
| "strLess (x # xs) [] = False"
| "strLess (x # xs) (y # ys) =
     ((of_char x :: nat) < of_char y \<or> (x = y \<and> strLess xs ys))"

fun insertString :: "string \<Rightarrow> string list \<Rightarrow> string list" where
  "insertString x [] = [x]"
| "insertString x (y # ys) = (if strLess y x then y # insertString x ys else x # y # ys)"

definition sortStrings :: "string list \<Rightarrow> string list" where
  "sortStrings xs = foldr insertString xs []"

definition SegExt :: string where
  "SegExt = ''.seg''"

definition ScratchSuffix :: string where
  "ScratchSuffix = ''.tmp''"

definition scratchDir :: "dirOS \<Rightarrow> string \<Rightarrow> string" where
  "scratchDir os d = os_clean os d @ ScratchSuffix"

definition walkSegs :: "dirOS \<Rightarrow> string \<Rightarrow> string list \<times> err option" where
  "walkSegs os d = (let (ps, e) = os_walk os d in (filter (\<lambda>p. ext p = SegExt) ps, e))"

text \<open>
  \<open>getSegmentPaths\<close>. A failed walk returns at once, with what was collected and not
  sorted.
\<close>

definition getSegmentPaths :: "dirOS \<Rightarrow> string \<Rightarrow> string list \<times> string list \<times> err option" where
  "getSegmentPaths os d =
     (let (published, e1) = (if \<not> os_notExist os d then walkSegs os d else ([], None))
      in if e1 \<noteq> None then (published, [], e1)
         else let (scratches, e2) =
                    (if \<not> os_notExist os (scratchDir os d) then walkSegs os (scratchDir os d)
                     else ([], None))
              in if e2 \<noteq> None then (published, scratches, e2)
                 else (sortStrings published, sortStrings scratches, None))"

subsection \<open>\<open>findSegments\<close>\<close>

definition nonExistingSegment :: segment where
  "nonExistingSegment = \<lparr>seq = 0, ind = 0, dir = [], sizeHint = 0\<rparr>"

text \<open>
  The loop of \<open>findSegments\<close> over the published paths, with its variables \<open>init\<close>,
  \<open>maxSeq\<close> and \<open>pubSegs\<close>; the fourth component is the error the loop returns with.
  \<open>maxSeq + 1\<close> is a \<open>uint64\<close>. The messages of the errors are kept without the number
  that is formatted into them.
\<close>

fun pubLoop :: "string \<Rightarrow> int \<Rightarrow> string list \<Rightarrow> bool \<Rightarrow> u64 \<Rightarrow> segment list
    \<Rightarrow> segment list \<times> bool \<times> u64 \<times> err option" where
  "pubLoop d sh [] init maxSeq pubSegs = (pubSegs, init, maxSeq, None)"
| "pubLoop d sh (p # ps) init maxSeq pubSegs =
     (case getSeqInd p of
        (sq, ix, Some e) \<Rightarrow> (pubSegs, init, maxSeq, Some e)
      | (sq, ix, None) \<Rightarrow>
          if init \<and> sq \<noteq> maxSeq + 1
          then (pubSegs, init, maxSeq, Some (ErrCorruption ''sequences must be contiguous''))
          else pubLoop d sh ps True sq
                 (pubSegs @ [\<lparr>seq = sq, ind = ix, dir = d, sizeHint = sh\<rparr>]))"

definition findSegments :: "dirOS \<Rightarrow> string \<Rightarrow> int \<Rightarrow> segment list \<times> segment \<times> err option" where
  "findSegments os d sh =
     (case getSegmentPaths os d of
        (publishedPaths, scratchPaths, Some e) \<Rightarrow> ([], nonExistingSegment, Some e)
      | (publishedPaths, scratchPaths, None) \<Rightarrow>
          if length scratchPaths > 1
          then ([], nonExistingSegment,
                Some (ErrCorruption ''data corruption: there must be at most 1 outstanding scratch''))
          else (case pubLoop d sh publishedPaths False 0 [] of
                  (pubSegs, init, maxSeq, Some e) \<Rightarrow> (pubSegs, nonExistingSegment, Some e)
                | (pubSegs, init, maxSeq, None) \<Rightarrow>
                    if length scratchPaths = 1
                    then (case getSeqInd (scratchPaths ! 0) of
                            (sq, ix, Some e) \<Rightarrow> (pubSegs, nonExistingSegment, None)
                          | (sq, ix, None) \<Rightarrow>
                              if init \<and> sq \<noteq> maxSeq + 1
                              then (pubSegs, nonExistingSegment,
                                    Some (ErrCorruption ''data corruption: outstanding scratch seq must be 1+ largest''))
                              else (pubSegs, \<lparr>seq = sq, ind = ix, dir = d, sizeHint = sh\<rparr>, None))
                    else (pubSegs, nonExistingSegment, None)))"

text \<open>
  The words of the specification, over the published paths in the order
  \<open>getSegmentPaths\<close> returns them: a path parses when \<open>getSeqInd\<close> accepts it, and the
  sequence numbers are contiguous when each is the one before it plus one.
\<close>

definition parses :: "string \<Rightarrow> bool" where
  "parses p = (snd (snd (getSeqInd p)) = None)"

definition seqOf :: "string \<Rightarrow> u64" where
  "seqOf p = fst (getSeqInd p)"

definition segmentOf :: "string \<Rightarrow> int \<Rightarrow> string \<Rightarrow> segment" where
  "segmentOf d sh p = \<lparr>seq = fst (getSeqInd p), ind = fst (snd (getSeqInd p)), dir = d, sizeHint = sh\<rparr>"

fun contiguous :: "u64 list \<Rightarrow> bool" where
  "contiguous (x # y # zs) = (y = x + 1 \<and> contiguous (y # zs))"
| "contiguous _ = True"

text \<open>A directory \<open>wal\<close> to try \<open>findSegments\<close> on: its files and those of \<open>wal.tmp\<close> are given.\<close>

definition walDirs :: "string list \<Rightarrow> string list \<Rightarrow> dirOS" where
  "walDirs pub scr =
     \<lparr>os_notExist = (\<lambda>p. p \<noteq> ''wal'' \<and> p \<noteq> ''wal.tmp''),
      os_walk = (\<lambda>p. if p = ''wal'' then (map (\<lambda>n. ''wal/'' @ n) pub, None)
                      else if p = ''wal.tmp'' then (map (\<lambda>n. ''wal.tmp/'' @ n) scr, None)
                      else ([], Some (ErrIO 2))),
      os_clean = (\<lambda>p. p)\<rparr>"

section \<open>Properties\<close>

subsection \<open>Frame sizes\<close>

lemma pad_word: "unat (8 - (w :: u32) mod 8) = 8 - unat w mod 8"
proof -
  have le: "w mod 8 \<le> 8"
    by (simp add: word_le_nat_alt unat_mod)
  have "unat (8 - w mod 8) = unat (8 :: u32) - unat (w mod 8)"
    using le by (rule unat_sub)
  then show ?thesis by (simp add: unat_mod)
qed

lemma padLen_eq: "snd (encodeFrameSize w) = ucast (8 - w mod 8)"
  by (simp add: encodeFrameSize_def Let_def)

lemma padLen_unat_word: "unat (snd (encodeFrameSize w)) = 8 - unat w mod 8"
proof -
  have "unat (ucast (8 - w mod 8) :: byte) = take_bit 8 (8 - unat w mod 8)"
    by (simp only: unsigned_ucast_eq pad_word) simp
  also have "\<dots> = 8 - unat w mod 8"
    by (rule take_bit_nat_eq_self) simp
  finally show ?thesis by (simp only: padLen_eq)
qed

lemma mod8_of_nat: "unat (of_nat n :: u32) mod 8 = n mod 8"
proof -
  have "unat (of_nat n :: u32) mod 8 = (n mod 2^32) mod 8"
    by (simp add: unat_of_nat)
  also have "\<dots> = n mod 8"
    by (rule mod_mod_cancel) simp
  finally show ?thesis .
qed

lemma padLen_unat: "unat (snd (encodeFrameSize (of_nat n))) = 8 - n mod 8"
  by (simp only: padLen_unat_word mod8_of_nat)

lemma wrap64_id: "- (2 ^ 63) \<le> x \<Longrightarrow> x < 2 ^ 63 \<Longrightarrow> wrap64 x = x"
  by (simp add: wrap64_def signed_take_bit_int_eq_self)

lemma frameSize_nat:
  assumes "n \<le> 2 ^ 63 - 17"
  shows "frameSize (int n) = 12 + int n + (8 - int (n mod 8))"
proof -
  have r: "go_rem (int n) 8 = int (n mod 8)"
    by (cases "n = 0") (simp_all add: go_rem_def zmod_int)
  have d: "n = 8 * (n div 8) + n mod 8" by simp
  have m: "n mod 8 < 8" by simp
  have "n div 8 \<le> (2 ^ 63 - 17) div 8" using assms by (rule div_le_mono)
  then have q: "n div 8 \<le> 2 ^ 60 - 3" by simp
  have s: "12 + int n + (8 - int (n mod 8)) = 20 + 8 * int (n div 8)"
    using d by linarith
  have "int n \<le> int (2 ^ 63 - 17)" using assms by (simp only: of_nat_le_iff)
  then have ni: "int n \<le> 2 ^ 63 - 17" by simp
  have qi: "int (n div 8) \<le> 2 ^ 60 - 3"
  proof -
    have "int (n div 8) \<le> int (2 ^ 60 - 3)" using q by (simp only: of_nat_le_iff)
    then show ?thesis by simp
  qed
  have w1: "wrap64 (8 - int (n mod 8)) = 8 - int (n mod 8)"
    using m by (intro wrap64_id) simp_all
  have "wrap64 (12 + int n) = 12 + int n"
    using ni by (intro wrap64_id) simp_all
  then have w2: "wrap64 (8 + 4 + int n) = 12 + int n" by simp
  have "wrap64 (20 + 8 * int (n div 8)) = 20 + 8 * int (n div 8)"
    using qi by (intro wrap64_id) simp_all
  then have w3: "wrap64 (12 + int n + (8 - int (n mod 8))) = 12 + int n + (8 - int (n mod 8))"
    by (simp only: s)
  show ?thesis
    by (simp only: frameSize_def Let_def r w1 w2 w3)
qed

lemma go_rem_nat: "go_rem (int m) 8 = int (m mod 8)"
  by (cases "m = 0") (simp_all add: go_rem_def zmod_int)

lemma frameSize_rem:
  assumes "n \<le> 2 ^ 63 - 17"
  shows "go_rem (frameSize (int n)) 8 = 4"
proof -
  have "n = 8 * (n div 8) + n mod 8" by simp
  then have "int n - int (n mod 8) = int (8 * (n div 8))" by linarith
  then have "frameSize (int n) = int (20 + 8 * (n div 8))"
    by (simp add: frameSize_nat [OF assms])
  then show ?thesis
    by (simp only: go_rem_nat) simp
qed

subsection \<open>Little-endian fields\<close>








lemma length_putUint64: "length (putUint64 w) = 8"
  by (simp add: putUint64_def)

lemma length_putUint32: "length (putUint32 w) = 4"
  by (simp add: putUint32_def)

subsection \<open>The length field\<close>








lemma padLen_range: "1 \<le> unat (snd (encodeFrameSize w)) \<and> unat (snd (encodeFrameSize w)) \<le> 8"
  by (simp only: padLen_unat_word) arith

lemma padLen_nz: "snd (encodeFrameSize w) \<noteq> 0"
proof
  assume "snd (encodeFrameSize w) = 0"
  then have "unat (snd (encodeFrameSize w)) = 0" by simp
  with padLen_range [of w] show False by linarith
qed






subsection \<open>Framing into and deframing from a buffer\<close>

lemma length_frameBytes:
  "length (frameBytes c dat) = 12 + length dat + (8 - length dat mod 8)"
  by (simp add: frameBytes_def length_putUint64 length_putUint32 padLen_unat)

lemma frame_bufWrite:
  "\<exists>nn nb. frame bufWrite f w dat =
     ((nn, None),
      f\<lparr>f_crc := crc_update (f_crc f) dat, f_nBytes := nb\<rparr>,
      w @ frameBytes (f_crc f) dat)"
  using padLen_nz [of "of_nat (length dat)"]
  apply (simp add: frame_def bufWrite_def Let_def split_beta frameBytes_def
      length_putUint64 length_putUint32)
  apply (rule exI)
  apply (rule refl)
  done


lemma frame_bufWrite_err: "snd (fst (frame bufWrite f w dat)) = None"
  using frame_bufWrite [of f w dat] by auto














subsection \<open>The rolling checksum\<close>

lemma crc_byte_unfold:
  "crc_byte s v = crc_bit (crc_bit (crc_bit (crc_bit (crc_bit (crc_bit (crc_bit (crc_bit (s XOR ucast v))))))))"
  by (simp add: crc_byte_def eval_nat_numeral)

lemma crc_bit_numeral:
  "crc_bit (numeral k) = (if bit (numeral k :: u32) 0 then drop_bit 1 (numeral k) XOR 0x82F63B78 else drop_bit 1 (numeral k))"
  "crc_bit (- numeral k) = (if bit (- numeral k :: u32) 0 then drop_bit 1 (- numeral k) XOR 0x82F63B78 else drop_bit 1 (- numeral k))"
  "crc_bit 0 = 0"
  "crc_bit 1 = 0x82F63B78"
  by (simp_all add: crc_bit_def castagnoli_def)

lemma castagnoli_msb: "bit castagnoli 31"
  by (simp add: castagnoli_def)

lemma drop1_msb: "\<not> bit (drop_bit (Suc 0) (s :: u32)) 31"
  by (simp add: bit_iff_odd_drop_bit)

lemma crc_bit_msb: "bit (crc_bit s) 31 = bit s 0"
  by (simp add: crc_bit_def bit_xor_iff castagnoli_msb drop1_msb)

lemma crc_bit_drop: "drop_bit 1 s = crc_bit s XOR (if bit s 0 then castagnoli else 0)"
  by (simp add: crc_bit_def xor.assoc)

lemma crc_bit_inj: 
  assumes "crc_bit a = crc_bit b" shows "a = b"
proof -
  have b0: "bit a 0 = bit b 0"
    using crc_bit_msb [of a] crc_bit_msb [of b] assms by simp
  have d: "drop_bit 1 a = drop_bit 1 b"
    using crc_bit_drop [of a] crc_bit_drop [of b] assms b0 by simp
  show ?thesis
  proof (rule bit_eqI)
    fix n
    show "bit a n = bit b n"
    proof (cases n)
      case 0
      with b0 show ?thesis by simp
    next
      case (Suc m)
      have "bit a (Suc m) = bit (drop_bit 1 a) m" by (simp add: bit_drop_bit_eq)
      also have "\<dots> = bit (drop_bit 1 b) m" by (simp only: d)
      also have "\<dots> = bit b (Suc m)" by (simp add: bit_drop_bit_eq)
      finally show ?thesis using Suc by simp
    qed
  qed
qed

lemma crc_bit_pow_inj: "(crc_bit ^^ k) a = (crc_bit ^^ k) b \<Longrightarrow> a = b"
  by (induction k) (auto dest: crc_bit_inj)

lemma xor_cancel_right:
  fixes a b c :: u32
  assumes h: "a XOR c = b XOR c" shows "a = b"
proof -
  have "a = (a XOR c) XOR c" by (simp add: xor.assoc)
  also have "\<dots> = (b XOR c) XOR c" by (simp only: h)
  also have "\<dots> = b" by (simp add: xor.assoc)
  finally show ?thesis .
qed


lemma crc_byte_inj_state: "crc_byte a v = crc_byte b v \<Longrightarrow> a = b"
  unfolding crc_byte_def by (drule crc_bit_pow_inj) (rule xor_cancel_right)



lemma foldl_crc_inj: "foldl crc_byte a xs = foldl crc_byte b xs \<Longrightarrow> a = b"
  by (induction xs arbitrary: a b) (auto dest: crc_byte_inj_state)

lemma crc_update_inj: "crc_update a xs = crc_update b xs \<Longrightarrow> a = b"
proof -
  assume "crc_update a xs = crc_update b xs"
  then have "foldl crc_byte (NOT a) xs = foldl crc_byte (NOT b) xs"
    by (simp add: crc_update_def)
  then have "NOT a = NOT b" by (rule foldl_crc_inj)
  then show "a = b" by simp
qed








subsection \<open>Flipped bits\<close>











subsection \<open>Short reads\<close>

text \<open>
  \<open>deframe\<close> calls \<open>Read\<close> once for each field and takes a short count for a torn frame.
  \<open>bufio.Reader\<close>, through which the program reads its segments, returns short at the
  end of its buffer: a whole frame that straddles the buffer's end is reported as a
  partial frame. Here one frame of 28 bytes is read through a buffer of 16.
\<close>

lemma replicate8: "replicate 8 x = [x, x, x, x, x, x, x, x]"
  by (simp add: eval_nat_numeral)

lemma putUint64_bytes:
  "putUint64 w = [ucast w, ucast (drop_bit 8 w), ucast (drop_bit 16 w), ucast (drop_bit 24 w),
     ucast (drop_bit 32 w), ucast (drop_bit 40 w), ucast (drop_bit 48 w), ucast (drop_bit 56 w)]"
  by (simp add: putUint64_def upt_rec)

lemma putUint32_bytes:
  "putUint32 w = [ucast w, ucast (drop_bit 8 w), ucast (drop_bit 16 w), ucast (drop_bit 24 w)]"
  by (simp add: putUint32_def upt_rec)








subsection \<open>Frame alignment and the count at a checksum mismatch\<close>

text \<open>
  C9 (as amended). For every payload length \<open>n\<close> up to \<open>2^63 - 17\<close> the encoder, given
  \<open>uint32(n)\<close>, chooses the padding length \<open>8 - n mod 8\<close>, which lies between 1 and 8,
  and \<open>frameSize(n)\<close> is \<open>8 + 4 + n + padLen\<close>, whose remainder by 8 (Go's \<open>%\<close>) is 4.
  The bound is where \<open>8 + 4 + n + padLen\<close> still fits Go's \<open>int\<close>.
\<close>

theorem frame_alignment:
  assumes "n \<le> 2 ^ 63 - 17"
  shows "unat (snd (encodeFrameSize (of_nat n))) = 8 - n mod 8
   \<and> 1 \<le> unat (snd (encodeFrameSize (of_nat n)))
   \<and> unat (snd (encodeFrameSize (of_nat n))) \<le> 8
   \<and> frameSize (int n) = 8 + 4 + int n + int (8 - n mod 8)
   \<and> go_rem (frameSize (int n)) 8 = 4"
proof -
  have "frameSize (int n) = 8 + 4 + int n + int (8 - n mod 8)"
    by (simp add: frameSize_nat [OF assms] zmod_int)
  then show ?thesis
    using padLen_unat [of n] padLen_range [of "of_nat n"] frameSize_rem [OF assms] by simp
qed

theorem frame_alignment_witness:
  "unat (snd (encodeFrameSize (of_nat 12))) = 8 - 12 mod 8
   \<and> 1 \<le> unat (snd (encodeFrameSize (of_nat 12)))
   \<and> unat (snd (encodeFrameSize (of_nat 12))) \<le> 8
   \<and> frameSize (int 12) = 8 + 4 + int 12 + int (8 - 12 mod 8)
   \<and> go_rem (frameSize (int 12)) 8 = 4"
proof -
  have h: "(12 :: nat) \<le> 2 ^ 63 - 17" by simp
  show ?thesis by (rule frame_alignment [OF h])
qed

text \<open>
  C9 as stated fails at the largest payload length a Go \<open>int\<close> can hold, \<open>2^63 - 1\<close>: the
  sum \<open>8 + 4 + n + padLen\<close> wraps around to a negative number, and its remainder is -4.
\<close>

theorem frame_alignment_counterexample:
  "frameSize 9223372036854775807 = - 9223372036854775796
   \<and> go_rem (frameSize 9223372036854775807) 8 = - 4"
  by (simp add: frameSize_def go_rem_def wrap64_def Let_def)

lemma bufRead_cases:
  "bufRead r k = (b, e, r') \<Longrightarrow> (e = None \<or> e = Some EOF) \<and> r = b @ r' \<and> (e = Some EOF \<longrightarrow> b = [])"
  by (auto simp add: bufRead_def split: if_splits)

text \<open>
  C10. When \<open>deframe\<close>, reading from a buffer, returns a checksum error, it returns the
  payload it read and the count \<open>8 + 4 + length\<close> (also stored in the error), where the
  length is the one the length field gives; the bytes consumed are exactly the length
  field, the checksum and the payload, so what is left of the buffer starts with the
  frame's padding, and going back by the count is the first byte of the frame.
\<close>

theorem checksum_error_count:
  assumes "deframe bufRead d r = ((dat, nn, Some (ErrorChecksum actual got m)), d', r')"
  shows "nn = 8 + 4 + int (length dat) \<and> m = nn
     \<and> length dat = unat (fst (decodeFrameSize (take 8 r)))
     \<and> r = take 8 r @ take 4 (drop 8 r) @ dat @ r'
     \<and> r' = drop (nat nn) r
     \<and> d_nBytes d' = d_nBytes d + nn"
proof -
  obtain b1 e1 r1 where r1: "bufRead r 8 = (b1, e1, r1)" by (metis prod_cases3)
  obtain b2 e2 r2 where r2: "bufRead r1 4 = (b2, e2, r2)" by (metis prod_cases3)
  obtain b3 e3 r3 where r3: "bufRead r2 (unat (fst (decodeFrameSize b1))) = (b3, e3, r3)" by (metis prod_cases3)
  obtain b4 e4 r4 where r4: "bufRead r3 (unat (snd (decodeFrameSize b1))) = (b4, e4, r4)" by (metis prod_cases3)
  note c4 = bufRead_cases [OF r4]
  note c1 = bufRead_cases [OF r1] and c2 = bufRead_cases [OF r2] and c3 = bufRead_cases [OF r3]
  from c1 c2 c3 have ee: "e1 = None \<or> e1 = Some EOF" "e2 = None \<or> e2 = Some EOF"
      "e3 = None \<or> e3 = Some EOF" "e4 = None \<or> e4 = Some EOF"
    using c4 by simp_all
  from assms have
    *: "e1 = None \<and> length b1 = 8 \<and> e2 = None \<and> length b2 = 4 \<and> e3 = None
        \<and> dat = b3 \<and> nn = 8 + 4 + int (length b3)
        \<and> m = nn \<and> r' = r3 \<and> d_nBytes d' = d_nBytes d + nn"
    and **: "length b3 = unat (fst (decodeFrameSize b1))"
    using ee
    by (auto simp add: deframe_def r1 r2 r3 r4 Let_def split_beta split: if_splits)
  with c1 c2 c3 have r: "r = b1 @ b2 @ dat @ r'" by simp
  with * have t: "take 8 r = b1" "take 4 (drop 8 r) = b2" by simp_all
  have n: "nat nn = length (b1 @ b2 @ dat)" using * by simp
  have "r = (b1 @ b2 @ dat) @ r'" using r by simp
  then have "drop (length (b1 @ b2 @ dat)) r = r'" by (metis append_eq_conv_conj)
  then have "drop (nat nn) r = r'" by (simp only: n)
  with * ** r t show ?thesis by simp
qed

lemma bad_frame_eval:
  "deframe bufRead newDeframer
     [12, 0, 0, 0, 0, 0, 0, 132, 81, 231, 152, 59,
      72, 101, 108, 108, 111, 32, 119, 111, 114, 108, 100, 33, 0, 0, 0, 0]
   = (([72, 101, 108, 108, 111, 32, 119, 111, 114, 108, 100, 33], 24,
       Some (ErrorChecksum 2073618257 999876433 24)),
      \<lparr>d_crc = 2073618257, d_nBytes = 24\<rparr>, [0, 0, 0, 0])"
  by (simp add: deframe_def bufRead_def decodeFrameSize_def Let_def newDeframer_def
      crc_update_def crc_byte_unfold crc_bit_numeral)

theorem checksum_error_count_witness:
  "deframe bufRead newDeframer
     [12, 0, 0, 0, 0, 0, 0, 132, 81, 231, 152, 59,
      72, 101, 108, 108, 111, 32, 119, 111, 114, 108, 100, 33, 0, 0, 0, 0]
   = (([72, 101, 108, 108, 111, 32, 119, 111, 114, 108, 100, 33], 24,
       Some (ErrorChecksum 2073618257 999876433 24)),
      \<lparr>d_crc = 2073618257, d_nBytes = 24\<rparr>, [0, 0, 0, 0])
   \<and> (24 :: int) = 8 + 4 + int (length [72, 101, 108, 108, 111, 32, 119, 111, 114, 108, 100, 33 :: byte])
   \<and> [0, 0, 0, 0 :: byte] = drop (nat 24)
        [12, 0, 0, 0, 0, 0, 0, 132, 81, 231, 152, 59,
         72, 101, 108, 108, 111, 32, 119, 111, 114, 108, 100, 33, 0, 0, 0, 0]
   \<and> d_nBytes \<lparr>d_crc = 2073618257, d_nBytes = 24\<rparr> = d_nBytes newDeframer + 24"
  using checksum_error_count [OF bad_frame_eval] bad_frame_eval by blast

section \<open>The segment reader\<close>

subsection \<open>Counting bytes\<close>

lemma deframe_accounting:
  assumes rd: "\<And>r k bs e r'. rd r k = (bs, e, r') \<Longrightarrow> pos r' = pos r + int (length bs) \<and> (P r \<longrightarrow> P r')"
    and df: "deframe rd d r = ((dat, nn, e), d', r')"
  shows "pos r' = pos r + nn \<and> d_nBytes d' = d_nBytes d + nn \<and> (P r \<longrightarrow> P r') \<and> 0 \<le> nn
         \<and> (e = None \<longrightarrow> 12 \<le> nn)"
proof -
  obtain b1 e1 r1 where r1: "rd r 8 = (b1, e1, r1)" by (metis prod_cases3)
  obtain b2 e2 r2 where r2: "rd r1 4 = (b2, e2, r2)" by (metis prod_cases3)
  obtain b3 e3 r3 where r3: "rd r2 (unat (fst (decodeFrameSize b1))) = (b3, e3, r3)" by (metis prod_cases3)
  obtain b4 e4 r4 where r4: "rd r3 (unat (snd (decodeFrameSize b1))) = (b4, e4, r4)" by (metis prod_cases3)
  note a1 = rd [OF r1] and a2 = rd [OF r2] and a3 = rd [OF r3] and a4 = rd [OF r4]
  from a1 a2 a3 a4 have
    p: "pos r1 = pos r + int (length b1)" "pos r2 = pos r + int (length b1) + int (length b2)"
       "pos r3 = pos r + int (length b1) + int (length b2) + int (length b3)"
       "pos r4 = pos r + int (length b1) + int (length b2) + int (length b3) + int (length b4)"
    and q: "P r \<longrightarrow> P r1" "P r \<longrightarrow> P r2" "P r \<longrightarrow> P r3" "P r \<longrightarrow> P r4"
    by auto
  note ev = deframe_def r1 r2 r3 r4 Let_def split_beta
  consider (a) "e1 \<noteq> None"
    | (b) "e1 = None" "length b1 \<noteq> 8"
    | (c) "e1 = None" "length b1 = 8" "e2 \<noteq> None"
    | (d) "e1 = None" "length b1 = 8" "e2 = None" "length b2 \<noteq> 4"
    | (e) "e1 = None" "length b1 = 8" "e2 = None" "length b2 = 4" "e3 \<noteq> None"
    | (f) "e1 = None" "length b1 = 8" "e2 = None" "length b2 = 4" "e3 = None"
          "length b3 \<noteq> unat (fst (decodeFrameSize b1))"
    | (g) "e1 = None" "length b1 = 8" "e2 = None" "length b2 = 4" "e3 = None"
          "length b3 = unat (fst (decodeFrameSize b1))" "crc_update (d_crc d) b3 \<noteq> le_uint32 b2"
    | (h) "e1 = None" "length b1 = 8" "e2 = None" "length b2 = 4" "e3 = None"
          "length b3 = unat (fst (decodeFrameSize b1))" "crc_update (d_crc d) b3 = le_uint32 b2"
          "\<not> snd (decodeFrameSize b1) > 0"
    | (i) "e1 = None" "length b1 = 8" "e2 = None" "length b2 = 4" "e3 = None"
          "length b3 = unat (fst (decodeFrameSize b1))" "crc_update (d_crc d) b3 = le_uint32 b2"
          "snd (decodeFrameSize b1) > 0" "e4 \<noteq> None"
    | (j) "e1 = None" "length b1 = 8" "e2 = None" "length b2 = 4" "e3 = None"
          "length b3 = unat (fst (decodeFrameSize b1))" "crc_update (d_crc d) b3 = le_uint32 b2"
          "snd (decodeFrameSize b1) > 0" "e4 = None"
    by blast
  then show ?thesis
  proof cases
    case a with df p q show ?thesis by (auto simp add: ev) next
    case b with df p q show ?thesis by (auto simp add: ev) next
    case c with df p q show ?thesis by (auto simp add: ev split: if_splits) next
    case d with df p q show ?thesis by (auto simp add: ev) next
    case e with df p q show ?thesis by (auto simp add: ev split: if_splits) next
    case f with df p q show ?thesis by (auto simp add: ev) next
    case g with df p q show ?thesis by (auto simp add: ev) next
    case h with df p q show ?thesis by (auto simp add: ev) next
    case i with df p q show ?thesis by (auto simp add: ev split: if_splits) next
    case j with df p q show ?thesis by (auto simp add: ev split: if_splits)
  qed
qed

lemma fileRead_pos:
  assumes "fileRead f k = (bs, e, f')"
  shows "fl_off f' = fl_off f + int (length bs) \<and> fl_data f' = fl_data f \<and> fl_bad f' = fl_bad f
     \<and> (0 \<le> fl_off f \<and> fl_off f \<le> int (length (fl_data f)) \<longrightarrow> fl_off f' \<le> int (length (fl_data f)))"
  using assms
  by (auto simp add: fileRead_def Let_def split: if_splits option.splits)

lemma bufioRead_pos:
  assumes "bufioRead s k = (bs, e, s')"
  shows "logicalPos s' = logicalPos s + int (length bs) \<and> (wellPositioned s \<longrightarrow> wellPositioned s')"
proof -
  obtain b f where s: "s = (b, f)" by (cases s)
  obtain bs1 e1 f1 where f1: "fileRead f k = (bs1, e1, f1)" by (metis prod_cases3)
  obtain bs2 e2 f2 where f2: "fileRead f (br_size b) = (bs2, e2, f2)" by (metis prod_cases3)
  note p1 = fileRead_pos [OF f1] and p2 = fileRead_pos [OF f2]
  show ?thesis
    using assms p1 p2
    by (auto simp add: bufioRead_def s f1 f2 Let_def logicalPos_def wellPositioned_def
        split: if_splits)
qed

lemma sr_deframe_pos:
  assumes df: "sr_deframe sr = ((dat, n, e), sr1)"
  shows "logicalPos (sr_br sr1, sr_f sr1) = logicalPos (sr_br sr, sr_f sr) + n
     \<and> (wellPositioned (sr_br sr, sr_f sr) \<longrightarrow> wellPositioned (sr_br sr1, sr_f sr1))
     \<and> d_nBytes (sr_deframer sr1) = d_nBytes (sr_deframer sr) + n
     \<and> sr_segment sr1 = sr_segment sr \<and> 0 \<le> n \<and> (e = None \<longrightarrow> 12 \<le> n)"
proof -
  obtain d' b' f' where
    d: "deframe bufioRead (sr_deframer sr) (sr_br sr, sr_f sr) = ((dat, n, e), d', (b', f'))"
    and s1: "sr1 = sr\<lparr>sr_deframer := d', sr_br := b', sr_f := f'\<rparr>"
    using df unfolding sr_deframe_def
    by (cases "deframe bufioRead (sr_deframer sr) (sr_br sr, sr_f sr)") (auto simp: split_beta)
  have "logicalPos (b', f') = logicalPos (sr_br sr, sr_f sr) + n \<and>
        d_nBytes d' = d_nBytes (sr_deframer sr) + n \<and>
        (wellPositioned (sr_br sr, sr_f sr) \<longrightarrow> wellPositioned (b', f')) \<and> 0 \<le> n \<and> (e = None \<longrightarrow> 12 \<le> n)"
    by (rule deframe_accounting [where rd = bufioRead and pos = logicalPos and P = wellPositioned, OF _ d])
       (rule bufioRead_pos)
  then show ?thesis by (simp add: s1)
qed

lemma undo_after_deframe:
  assumes wp: "wellPositioned (sr_br sr, sr_f sr)"
    and df: "sr_deframe sr = ((dat, n, e), sr1)"
  shows "undo sr1 n =
      (None, sr1\<lparr>sr_f := (sr_f sr1)\<lparr>fl_off := fl_off (sr_f sr1) - (n + int (length (br_buf (sr_br sr1))))\<rparr>,
                 sr_deframer := deframer_undo (sr_deframer sr1) n,
                 sr_br := bufioReset (sr_br sr1)\<rparr>)
    \<and> fl_off (sr_f sr1) - (n + int (length (br_buf (sr_br sr1)))) = logicalPos (sr_br sr, sr_f sr)"
proof -
  from sr_deframe_pos [OF df] have
    lp: "logicalPos (sr_br sr1, sr_f sr1) = logicalPos (sr_br sr, sr_f sr) + n" by simp
  from wp have "0 \<le> logicalPos (sr_br sr, sr_f sr)" by (simp add: wellPositioned_def)
  with lp have nn: "0 \<le> fl_off (sr_f sr1) - (n + int (length (br_buf (sr_br sr1))))"
    and eq: "fl_off (sr_f sr1) - (n + int (length (br_buf (sr_br sr1)))) = logicalPos (sr_br sr, sr_f sr)"
    by (simp_all add: logicalPos_def)
  from nn have "undo sr1 n =
      (None, sr1\<lparr>sr_f := (sr_f sr1)\<lparr>fl_off := fl_off (sr_f sr1) - (n + int (length (br_buf (sr_br sr1))))\<rparr>,
                 sr_deframer := deframer_undo (sr_deframer sr1) n,
                 sr_br := bufioReset (sr_br sr1)\<rparr>)"
    by (simp add: undo_def fileSeekCurrent_def Let_def)
  with eq show ?thesis by simp
qed

subsection \<open>Bad frames in \<open>seekToLastFrame\<close>\<close>

text \<open>
  C3. Take any iteration of the loop of \<open>seekToLastFrame\<close>, in a scan that began at
  offset 0, and let its \<open>deframe\<close> return the count \<open>n\<close> and the error \<open>e\<close>. If \<open>e\<close> is a
  checksum error or a partial frame, \<open>undo(n)\<close> succeeds: the file offset goes back by
  \<open>n\<close> plus the buffered, unread bytes, which is where this frame began, the buffer is
  emptied and the deframer's byte count is what it was before the frame; the loop stops
  by \<open>break\<close>, and (stated for the first iteration) \<open>seekToLastFrame\<close> returns that
  offset and no error. If \<open>e\<close> is any other error but \<open>io.EOF\<close>, the loop returns it, and
  \<open>seekToLastFrame\<close> returns \<open>0, 0, e\<close>. If \<open>deframe\<close> panics (the checksum matched and
  the length field gives a padding longer than 8 bytes), the panic leaves the loop and
  nothing is undone: that case is neither a bad frame undone nor an error returned.
\<close>

theorem seek_undo_bad_frame:
  assumes wp: "wellPositioned (sr_br sr, sr_f sr)"
    and df: "sr_deframe sr = ((dat, n, e), sr1)"
  shows "(isErrorChecksum e \<or> isErrorPartialFrame e \<longrightarrow>
            fst (undo sr1 n) = None
          \<and> fl_off (sr_f (snd (undo sr1 n)))
              = fl_off (sr_f sr1) - (n + int (length (br_buf (sr_br sr1))))
          \<and> fl_off (sr_f (snd (undo sr1 n))) = logicalPos (sr_br sr, sr_f sr)
          \<and> br_buf (sr_br (snd (undo sr1 n))) = []
          \<and> d_nBytes (sr_deframer (snd (undo sr1 n))) = d_nBytes (sr_deframer sr)
          \<and> seekLoop (Suc fuel) init i sr = Some (Inr i, snd (undo sr1 n))
          \<and> seekToLastFrame (Suc fuel) sr
              = Some ((0, logicalPos (sr_br sr, sr_f sr), None), snd (undo sr1 n)))
       \<and> (e \<noteq> None \<and> e \<noteq> Some EOF \<and> \<not> isErrorChecksum e \<and> \<not> isErrorPartialFrame e
            \<and> e \<noteq> Some Panic \<longrightarrow>
            seekLoop (Suc fuel) init i sr = Some (Inl (the e), sr1)
          \<and> seekToLastFrame (Suc fuel) sr = Some ((0, 0, e), sr1))
       \<and> (e = Some Panic \<longrightarrow> seekLoop (Suc fuel) init i sr = Some (Inl Panic, sr1))"
proof (intro conjI impI)
  note u = undo_after_deframe [OF wp df]
  note p = sr_deframe_pos [OF df]
  obtain sr2 where un: "undo sr1 n = (None, sr2)" using u by simp
  then have s2: "snd (undo sr1 n) = sr2" by simp
  assume bad: "isErrorChecksum e \<or> isErrorPartialFrame e"
  then have ne: "e \<noteq> Some EOF"
    by (auto simp: isErrorChecksum_def isErrorPartialFrame_def)
  show "fst (undo sr1 n) = None" using u by simp
  show "fl_off (sr_f (snd (undo sr1 n))) = fl_off (sr_f sr1) - (n + int (length (br_buf (sr_br sr1))))"
    using u by simp
  show u3: "fl_off (sr_f (snd (undo sr1 n))) = logicalPos (sr_br sr, sr_f sr)" using u by simp
  show "br_buf (sr_br (snd (undo sr1 n))) = []" using u by (simp add: bufioReset_def)
  show "d_nBytes (sr_deframer (snd (undo sr1 n))) = d_nBytes (sr_deframer sr)"
    using u p by (simp add: deframer_undo_def)
  have loop: "seekLoop (Suc fuel) j k sr = Some (Inr k, sr2)" for j k
    using bad ne by (auto simp add: df un)
  show "seekLoop (Suc fuel) init i sr = Some (Inr i, snd (undo sr1 n))"
    unfolding s2 by (rule loop)
  have "0 \<le> logicalPos (sr_br sr, sr_f sr)" using wp by (simp add: wellPositioned_def)
  then show "seekToLastFrame (Suc fuel) sr
      = Some ((0, logicalPos (sr_br sr, sr_f sr), None), snd (undo sr1 n))"
    using u3 unfolding s2
    by (simp add: seekToLastFrame_def loop fileSeekCurrent_def del: seekLoop.simps)
next
  assume "e = Some Panic"
  then show "seekLoop (Suc fuel) init i sr = Some (Inl Panic, sr1)"
    by (simp add: df isErrorChecksum_def isErrorPartialFrame_def)
next
  assume o: "e \<noteq> None \<and> e \<noteq> Some EOF \<and> \<not> isErrorChecksum e \<and> \<not> isErrorPartialFrame e
      \<and> e \<noteq> Some Panic"
  then obtain e' where e: "e = Some e'" by auto
  show "seekLoop (Suc fuel) init i sr = Some (Inl (the e), sr1)"
    using o e by (simp add: df)
  have "seekLoop (Suc fuel) True 0 sr = Some (Inl e', sr1)"
    using o e by (simp add: df)
  then show "seekToLastFrame (Suc fuel) sr = Some ((0, 0, e), sr1)"
    using e by (simp add: seekToLastFrame_def del: seekLoop.simps)
qed

lemma scan_bad_frame_eval:
  "sr_deframe (newSegmentReader \<lparr>seq = 1, ind = 5, dir = ''wal'', sizeHint = 100\<rparr>
      (openFile [12, 0, 0, 0, 0, 0, 0, 132, 81, 231, 152, 59,
         72, 101, 108, 108, 111, 32, 119, 111, 114, 108, 100, 33, 0, 0, 0, 0] None)
      (newReaderSize 100))
   = (([72, 101, 108, 108, 111, 32, 119, 111, 114, 108, 100, 33], 24,
       Some (ErrorChecksum 2073618257 999876433 24)),
      \<lparr>sr_segment = \<lparr>seq = 1, ind = 5, dir = ''wal'', sizeHint = 100\<rparr>,
       sr_deframer = \<lparr>d_crc = 2073618257, d_nBytes = 24\<rparr>,
       sr_f = \<lparr>fl_data = [12, 0, 0, 0, 0, 0, 0, 132, 81, 231, 152, 59,
         72, 101, 108, 108, 111, 32, 119, 111, 114, 108, 100, 33, 0, 0, 0, 0],
         fl_off = 28, fl_bad = None\<rparr>,
       sr_br = \<lparr>br_buf = [0, 0, 0, 0], br_size = 100\<rparr>\<rparr>)"
  by (simp add: sr_deframe_def deframe_def bufioRead_def fileRead_def newSegmentReader_def
      openFile_def newReaderSize_def bufioReset_def newDeframer_def decodeFrameSize_def Let_def
      crc_update_def crc_byte_unfold crc_bit_numeral)

lemma scan_io_error_eval:
  "sr_deframe (newSegmentReader \<lparr>seq = 1, ind = 5, dir = ''wal'', sizeHint = 100\<rparr>
      (openFile [1, 2, 3] (Some 0)) (newReaderSize 100))
   = (([], 0, Some (ErrIO 5)),
      \<lparr>sr_segment = \<lparr>seq = 1, ind = 5, dir = ''wal'', sizeHint = 100\<rparr>,
       sr_deframer = \<lparr>d_crc = 0, d_nBytes = 0\<rparr>,
       sr_f = \<lparr>fl_data = [1, 2, 3], fl_off = 0, fl_bad = Some 0\<rparr>,
       sr_br = \<lparr>br_buf = [], br_size = 100\<rparr>\<rparr>)"
  by (simp add: sr_deframe_def deframe_def bufioRead_def fileRead_def newSegmentReader_def
      openFile_def newReaderSize_def bufioReset_def newDeframer_def Let_def)

lemma scan_panic_eval:
  "sr_deframe (newSegmentReader \<lparr>seq = 1, ind = 5, dir = ''wal'', sizeHint = 100\<rparr>
      (openFile [12, 0, 0, 0, 0, 0, 0, 140, 81, 231, 152, 123,
         72, 101, 108, 108, 111, 32, 119, 111, 114, 108, 100, 33, 0, 0, 0, 0] None)
      (newReaderSize 100))
   = (([], 24, Some Panic),
      \<lparr>sr_segment = \<lparr>seq = 1, ind = 5, dir = ''wal'', sizeHint = 100\<rparr>,
       sr_deframer = \<lparr>d_crc = 2073618257, d_nBytes = 24\<rparr>,
       sr_f = \<lparr>fl_data = [12, 0, 0, 0, 0, 0, 0, 140, 81, 231, 152, 123,
         72, 101, 108, 108, 111, 32, 119, 111, 114, 108, 100, 33, 0, 0, 0, 0],
         fl_off = 28, fl_bad = None\<rparr>,
       sr_br = \<lparr>br_buf = [0, 0, 0, 0], br_size = 100\<rparr>\<rparr>)"
  by (simp add: sr_deframe_def deframe_def bufioRead_def fileRead_def newSegmentReader_def
      openFile_def newReaderSize_def bufioReset_def newDeframer_def decodeFrameSize_def Let_def
      crc_update_def crc_byte_unfold crc_bit_numeral)

lemma new_reader_wellPositioned:
  "wellPositioned (sr_br (newSegmentReader s (openFile content bad) br),
                   sr_f (newSegmentReader s (openFile content bad) br))"
  by (simp add: wellPositioned_def logicalPos_def newSegmentReader_def openFile_def bufioReset_def)

theorem seek_undo_bad_frame_witness:
  "seekToLastFrame 1 (newSegmentReader \<lparr>seq = 1, ind = 5, dir = ''wal'', sizeHint = 100\<rparr>
      (openFile [12, 0, 0, 0, 0, 0, 0, 132, 81, 231, 152, 59,
         72, 101, 108, 108, 111, 32, 119, 111, 114, 108, 100, 33, 0, 0, 0, 0] None)
      (newReaderSize 100))
   = Some ((0, 0, None),
      \<lparr>sr_segment = \<lparr>seq = 1, ind = 5, dir = ''wal'', sizeHint = 100\<rparr>,
       sr_deframer = \<lparr>d_crc = 2073618257, d_nBytes = 0\<rparr>,
       sr_f = \<lparr>fl_data = [12, 0, 0, 0, 0, 0, 0, 132, 81, 231, 152, 59,
         72, 101, 108, 108, 111, 32, 119, 111, 114, 108, 100, 33, 0, 0, 0, 0],
         fl_off = 0, fl_bad = None\<rparr>,
       sr_br = \<lparr>br_buf = [], br_size = 100\<rparr>\<rparr>)
   \<and> seekToLastFrame 1 (newSegmentReader \<lparr>seq = 1, ind = 5, dir = ''wal'', sizeHint = 100\<rparr>
      (openFile [1, 2, 3] (Some 0)) (newReaderSize 100))
   = Some ((0, 0, Some (ErrIO 5)),
      \<lparr>sr_segment = \<lparr>seq = 1, ind = 5, dir = ''wal'', sizeHint = 100\<rparr>,
       sr_deframer = \<lparr>d_crc = 0, d_nBytes = 0\<rparr>,
       sr_f = \<lparr>fl_data = [1, 2, 3], fl_off = 0, fl_bad = Some 0\<rparr>,
       sr_br = \<lparr>br_buf = [], br_size = 100\<rparr>\<rparr>)
   \<and> seekLoop 1 True 0 (newSegmentReader \<lparr>seq = 1, ind = 5, dir = ''wal'', sizeHint = 100\<rparr>
      (openFile [12, 0, 0, 0, 0, 0, 0, 140, 81, 231, 152, 123,
         72, 101, 108, 108, 111, 32, 119, 111, 114, 108, 100, 33, 0, 0, 0, 0] None)
      (newReaderSize 100))
   = Some (Inl Panic,
      \<lparr>sr_segment = \<lparr>seq = 1, ind = 5, dir = ''wal'', sizeHint = 100\<rparr>,
       sr_deframer = \<lparr>d_crc = 2073618257, d_nBytes = 24\<rparr>,
       sr_f = \<lparr>fl_data = [12, 0, 0, 0, 0, 0, 0, 140, 81, 231, 152, 123,
         72, 101, 108, 108, 111, 32, 119, 111, 114, 108, 100, 33, 0, 0, 0, 0],
         fl_off = 28, fl_bad = None\<rparr>,
       sr_br = \<lparr>br_buf = [0, 0, 0, 0], br_size = 100\<rparr>\<rparr>)"
proof -
  note c = seek_undo_bad_frame [OF new_reader_wellPositioned scan_panic_eval, of 0 True 0]
  note a = seek_undo_bad_frame [OF new_reader_wellPositioned scan_bad_frame_eval, of 0 True 0]
  note b = seek_undo_bad_frame [OF new_reader_wellPositioned scan_io_error_eval, of 0 True 0]
  have pa: "isErrorChecksum (Some (ErrorChecksum 2073618257 999876433 24))"
    by (simp add: isErrorChecksum_def)
  have pb: "Some (ErrIO 5) \<noteq> None \<and> Some (ErrIO 5) \<noteq> Some EOF \<and> \<not> isErrorChecksum (Some (ErrIO 5))
      \<and> \<not> isErrorPartialFrame (Some (ErrIO 5)) \<and> Some (ErrIO 5) \<noteq> Some Panic"
    by (simp add: isErrorChecksum_def isErrorPartialFrame_def)
  from a pa have a': "seekToLastFrame (Suc 0) (newSegmentReader \<lparr>seq = 1, ind = 5, dir = ''wal'', sizeHint = 100\<rparr>
      (openFile [12, 0, 0, 0, 0, 0, 0, 132, 81, 231, 152, 59,
         72, 101, 108, 108, 111, 32, 119, 111, 114, 108, 100, 33, 0, 0, 0, 0] None)
      (newReaderSize 100))
     = Some ((0, logicalPos (sr_br (newSegmentReader \<lparr>seq = 1, ind = 5, dir = ''wal'', sizeHint = 100\<rparr>
      (openFile [12, 0, 0, 0, 0, 0, 0, 132, 81, 231, 152, 59,
         72, 101, 108, 108, 111, 32, 119, 111, 114, 108, 100, 33, 0, 0, 0, 0] None)
      (newReaderSize 100)), sr_f (newSegmentReader \<lparr>seq = 1, ind = 5, dir = ''wal'', sizeHint = 100\<rparr>
      (openFile [12, 0, 0, 0, 0, 0, 0, 132, 81, 231, 152, 59,
         72, 101, 108, 108, 111, 32, 119, 111, 114, 108, 100, 33, 0, 0, 0, 0] None)
      (newReaderSize 100))), None),
        snd (undo \<lparr>sr_segment = \<lparr>seq = 1, ind = 5, dir = ''wal'', sizeHint = 100\<rparr>,
       sr_deframer = \<lparr>d_crc = 2073618257, d_nBytes = 24\<rparr>,
       sr_f = \<lparr>fl_data = [12, 0, 0, 0, 0, 0, 0, 132, 81, 231, 152, 59,
         72, 101, 108, 108, 111, 32, 119, 111, 114, 108, 100, 33, 0, 0, 0, 0],
         fl_off = 28, fl_bad = None\<rparr>,
       sr_br = \<lparr>br_buf = [0, 0, 0, 0], br_size = 100\<rparr>\<rparr> 24))"
    by blast
  from b pb have b': "seekToLastFrame (Suc 0) (newSegmentReader \<lparr>seq = 1, ind = 5, dir = ''wal'', sizeHint = 100\<rparr>
      (openFile [1, 2, 3] (Some 0)) (newReaderSize 100))
   = Some ((0, 0, Some (ErrIO 5)),
      \<lparr>sr_segment = \<lparr>seq = 1, ind = 5, dir = ''wal'', sizeHint = 100\<rparr>,
       sr_deframer = \<lparr>d_crc = 0, d_nBytes = 0\<rparr>,
       sr_f = \<lparr>fl_data = [1, 2, 3], fl_off = 0, fl_bad = Some 0\<rparr>,
       sr_br = \<lparr>br_buf = [], br_size = 100\<rparr>\<rparr>)"
    by blast
  from c have c': "seekLoop (Suc 0) True 0 (newSegmentReader \<lparr>seq = 1, ind = 5, dir = ''wal'', sizeHint = 100\<rparr>
      (openFile [12, 0, 0, 0, 0, 0, 0, 140, 81, 231, 152, 123,
         72, 101, 108, 108, 111, 32, 119, 111, 114, 108, 100, 33, 0, 0, 0, 0] None)
      (newReaderSize 100))
   = Some (Inl Panic,
      \<lparr>sr_segment = \<lparr>seq = 1, ind = 5, dir = ''wal'', sizeHint = 100\<rparr>,
       sr_deframer = \<lparr>d_crc = 2073618257, d_nBytes = 24\<rparr>,
       sr_f = \<lparr>fl_data = [12, 0, 0, 0, 0, 0, 0, 140, 81, 231, 152, 123,
         72, 101, 108, 108, 111, 32, 119, 111, 114, 108, 100, 33, 0, 0, 0, 0],
         fl_off = 28, fl_bad = None\<rparr>,
       sr_br = \<lparr>br_buf = [0, 0, 0, 0], br_size = 100\<rparr>\<rparr>)"
    by blast
  show ?thesis
    unfolding One_nat_def a' b' c'
    by (simp add: logicalPos_def newSegmentReader_def openFile_def bufioReset_def undo_def
        fileSeekCurrent_def deframer_undo_def Let_def)
qed

subsection \<open>The index \<open>seekToLastFrame\<close> returns\<close>

lemma seekLoop_ind:
  "seekLoop fuel init i sr = Some (Inr j, sr') \<Longrightarrow>
     j = (if countFrames fuel sr = 0 then i
          else if init then ind (sr_segment sr) + of_nat (countFrames fuel sr - 1)
          else i + of_nat (countFrames fuel sr))"
proof (induction fuel arbitrary: init i sr)
  case 0
  then show ?case by simp
next
  case (Suc fuel)
  obtain res sr1 where "sr_deframe sr = (res, sr1)" by (cases "sr_deframe sr")
  moreover obtain dat n e where "res = (dat, n, e)" by (cases res)
  ultimately have df: "sr_deframe sr = ((dat, n, e), sr1)" by simp
  have seg: "sr_segment sr1 = sr_segment sr" using sr_deframe_pos [OF df] by simp
  show ?case
  proof (cases e)
    case None
    let ?i' = "if init then ind (sr_segment sr1) else i + 1"
    from Suc.prems have "seekLoop fuel False ?i' sr1 = Some (Inr j, sr')"
      by (cases init) (simp_all add: df None isErrorChecksum_def isErrorPartialFrame_def)
    from Suc.IH [OF this] have "j = ?i' + of_nat (countFrames fuel sr1)"
      by simp
    then show ?thesis by (simp add: df None seg)
  next
    case (Some e')
    from Suc.prems have "j = i"
      by (auto simp add: df Some split: if_splits prod.splits option.splits)
    then show ?thesis by (simp add: df Some)
  qed
qed

lemma seekToLastFrame_ind:
  assumes "seekToLastFrame fuel sr = Some ((j, off, None), sr')"
  shows "j = (if countFrames fuel sr = 0 then 0
              else ind (sr_segment sr) + of_nat (countFrames fuel sr - 1))"
proof -
  from assms obtain sr'' where "seekLoop fuel True 0 sr = Some (Inr j, sr'')"
    by (auto simp add: seekToLastFrame_def split_beta split: option.splits sum.splits prod.splits)
  from seekLoop_ind [OF this] show ?thesis by simp
qed

text \<open>
  C2, evaluated where the code departs from it: a segment whose first record has index
  5 and whose file is empty. No frame is read, and \<open>seekToLastFrame\<close> returns the index
  0 (the zero value of its variable \<open>ind\<close>, never assigned), not the segment's 5.
\<close>

theorem seekToLastFrame_no_frames:
  "ind (sr_segment (newSegmentReader \<lparr>seq = 1, ind = 5, dir = ''wal'', sizeHint = 100\<rparr>
      (openFile [] None) (newReaderSize 100))) = 5
   \<and> countFrames 1 (newSegmentReader \<lparr>seq = 1, ind = 5, dir = ''wal'', sizeHint = 100\<rparr>
      (openFile [] None) (newReaderSize 100)) = 0
   \<and> seekToLastFrame 1 (newSegmentReader \<lparr>seq = 1, ind = 5, dir = ''wal'', sizeHint = 100\<rparr>
      (openFile [] None) (newReaderSize 100))
     = Some ((0, 0, None),
         \<lparr>sr_segment = \<lparr>seq = 1, ind = 5, dir = ''wal'', sizeHint = 100\<rparr>,
          sr_deframer = \<lparr>d_crc = 0, d_nBytes = 0\<rparr>,
          sr_f = \<lparr>fl_data = [], fl_off = 0, fl_bad = None\<rparr>,
          sr_br = \<lparr>br_buf = [], br_size = 100\<rparr>\<rparr>)"
  by (simp add: seekToLastFrame_def sr_deframe_def deframe_def bufioRead_def fileRead_def
      newSegmentReader_def openFile_def newReaderSize_def bufioReset_def newDeframer_def Let_def
      fileSeekCurrent_def)

section \<open>The scratch read/writer\<close>

subsection \<open>Byte counts of \<open>framer.frame\<close>\<close>

lemma wrap64_add_left: "wrap64 (wrap64 a + b) = wrap64 (a + b)"
  using signed_take_bit_add [of 63 "wrap64 a" b] signed_take_bit_add [of 63 a b]
  by (simp add: wrap64_def)

lemma wrap64_add_right: "wrap64 (a + wrap64 b) = wrap64 (a + b)"
  using wrap64_add_left [of b a] by (simp add: add.commute)

lemma frame_count:
  assumes fr: "frame wr f w dat = ((n, e), f', w')"
  shows "f_nBytes f' = wrap64 (f_nBytes f + n) \<and> f_crc f' = crc_update (f_crc f) dat"
proof -
  let ?lf = "fst (encodeFrameSize (of_nat (length dat)))"
  let ?pl = "snd (encodeFrameSize (of_nat (length dat)))"
  obtain n1 e1 w1 where r1: "wr w (putUint64 ?lf) = (n1, e1, w1)" by (metis prod_cases3)
  obtain n2 e2 w2 where r2: "wr w1 (putUint32 (crc_update (f_crc f) dat)) = (n2, e2, w2)"
    by (metis prod_cases3)
  obtain n3 e3 w3 where r3: "wr w2 dat = (n3, e3, w3)" by (metis prod_cases3)
  obtain n4 e4 w4 where r4: "wr w3 (replicate (unat ?pl) 0) = (n4, e4, w4)" by (metis prod_cases3)
  note ev = frame_def r1 r2 r3 r4 Let_def split_beta wrap64_add_left wrap64_add_right
  have a3: "wrap64 (wrap64 (wrap64 (f_nBytes f + 8) + 4) + n3) = wrap64 (f_nBytes f + wrap64 (12 + n3))"
    by (simp add: wrap64_add_left wrap64_add_right add.assoc)
  have a4: "wrap64 (wrap64 (wrap64 (wrap64 (f_nBytes f + 8) + 4) + int (length dat)) + n4)
      = wrap64 (f_nBytes f + wrap64 (wrap64 (12 + int (length dat)) + n4))"
    by (simp add: wrap64_add_left wrap64_add_right add.assoc)
  from fr show ?thesis
    using a3 a4
    by (auto simp add: ev add.assoc split: if_splits)
qed

subsection \<open>\<open>segmentReadWriter.frame\<close>\<close>

text \<open>
  Three writers exercise the three outcomes of \<open>framer.frame\<close> on an empty payload:
  a \<open>bytes.Buffer\<close>, a writer that accepts every byte and reports \<open>io.EOF\<close>, and a
  writer with room for ten bytes only.
\<close>

lemma frame_empty_buf:
  "frame bufWrite newFramer [] [] =
     ((20, None), \<lparr>f_crc = 0, f_nBytes = 20\<rparr>,
      [0, 0, 0, 0, 0, 0, 0, 136, 0, 0, 0, 0, 0, 0, 0, 0, 0, 0, 0, 0])"
  by (simp add: frame_def bufWrite_def newFramer_def encodeFrameSize_def putUint64_bytes
      putUint32_bytes replicate8 Let_def wrap64_def crc_update_def)

lemma frame_empty_eof:
  "frame eofWrite newFramer [] [] =
     ((8, Some EOF), \<lparr>f_crc = 0, f_nBytes = 8\<rparr>, [0, 0, 0, 0, 0, 0, 0, 136])"
  by (simp add: frame_def eofWrite_def newFramer_def encodeFrameSize_def putUint64_bytes
      putUint32_bytes replicate8 Let_def wrap64_def crc_update_def)

lemma frame_empty_limited:
  "frame limitedWrite newFramer ([], 10) [] =
     ((10, Some (ErrTornWrite ''checksum'')), \<lparr>f_crc = 0, f_nBytes = 10\<rparr>,
      ([0, 0, 0, 0, 0, 0, 0, 136, 0, 0], 10))"
  by (simp add: frame_def limitedWrite_def newFramer_def encodeFrameSize_def putUint64_bytes
      putUint32_bytes replicate8 Let_def wrap64_def crc_update_def)

text \<open>
  C4 (as amended).  Let \<open>framer.frame\<close> return \<open>(n, e)\<close> and leave the framer with
  \<open>nBytes\<close> advanced by \<open>n\<close> (in 64-bit arithmetic).  Then
  \<open>segmentReadWriter.frame\<close> returns \<open>n\<close> together with
  \<^item> \<open>errSegmentSizeReached\<close> or \<open>nil\<close>, according to whether bytes read plus bytes
    written is at least \<open>sizeHint\<close>, when the codec write succeeded;
  \<^item> \<open>errSegmentSizeReached\<close> when the codec write failed with \<open>io.EOF\<close>;
  \<^item> the codec's error itself when the write failed with another error and bytes read
    plus bytes written is below \<open>sizeHint\<close>.
\<close>

theorem srw_frame_result:
  assumes live: "srw_framer srw = Some f" "srw_deframer srw = Some d"
    and fr: "frame wr f w dat = ((n, e), f', w')"
  shows "f_nBytes f' = wrap64 (f_nBytes f + n)
       \<and> (e = None \<longrightarrow>
            srw_frame wr srw w dat =
              ((n, if sizeHint (srw_segment srw) \<le> wrap64 (d_nBytes d + f_nBytes f')
                   then Some ErrSegmentSizeReached else None),
               srw\<lparr>srw_framer := Some f'\<rparr>, w'))
       \<and> (e = Some EOF \<longrightarrow>
            srw_frame wr srw w dat =
              ((n, Some ErrSegmentSizeReached), srw\<lparr>srw_framer := Some f'\<rparr>, w'))
       \<and> (e \<noteq> None \<and> e \<noteq> Some EOF
            \<and> wrap64 (d_nBytes d + f_nBytes f') < sizeHint (srw_segment srw) \<longrightarrow>
            srw_frame wr srw w dat = ((n, e), srw\<lparr>srw_framer := Some f'\<rparr>, w'))"
  using live fr frame_count [OF fr] by (simp add: srw_frame_def Let_def)

text \<open>
  The theorem at work on a fresh read/writer: a 20-byte frame fills a segment of
  \<open>sizeHint = 20\<close> and does not fill one of \<open>sizeHint = 21\<close>; \<open>io.EOF\<close> from the writer
  becomes \<open>errSegmentSizeReached\<close>; a torn write well below \<open>sizeHint\<close> is returned as it
  is.
\<close>

theorem srw_frame_result_witness:
  "srw_frame bufWrite (newSegmentReadWriter \<lparr>seq = 0, ind = 0, dir = ''wal'', sizeHint = 20\<rparr>) [] []
     = ((20, Some ErrSegmentSizeReached),
        \<lparr>srw_segment = \<lparr>seq = 0, ind = 0, dir = ''wal'', sizeHint = 20\<rparr>,
         srw_deframer = Some \<lparr>d_crc = 0, d_nBytes = 0\<rparr>,
         srw_framer = Some \<lparr>f_crc = 0, f_nBytes = 20\<rparr>\<rparr>,
        [0, 0, 0, 0, 0, 0, 0, 136, 0, 0, 0, 0, 0, 0, 0, 0, 0, 0, 0, 0])
   \<and> srw_frame bufWrite (newSegmentReadWriter \<lparr>seq = 0, ind = 0, dir = ''wal'', sizeHint = 21\<rparr>) [] []
     = ((20, None),
        \<lparr>srw_segment = \<lparr>seq = 0, ind = 0, dir = ''wal'', sizeHint = 21\<rparr>,
         srw_deframer = Some \<lparr>d_crc = 0, d_nBytes = 0\<rparr>,
         srw_framer = Some \<lparr>f_crc = 0, f_nBytes = 20\<rparr>\<rparr>,
        [0, 0, 0, 0, 0, 0, 0, 136, 0, 0, 0, 0, 0, 0, 0, 0, 0, 0, 0, 0])
   \<and> srw_frame eofWrite (newSegmentReadWriter \<lparr>seq = 0, ind = 0, dir = ''wal'', sizeHint = 100\<rparr>) [] []
     = ((8, Some ErrSegmentSizeReached),
        \<lparr>srw_segment = \<lparr>seq = 0, ind = 0, dir = ''wal'', sizeHint = 100\<rparr>,
         srw_deframer = Some \<lparr>d_crc = 0, d_nBytes = 0\<rparr>,
         srw_framer = Some \<lparr>f_crc = 0, f_nBytes = 8\<rparr>\<rparr>,
        [0, 0, 0, 0, 0, 0, 0, 136])
   \<and> srw_frame limitedWrite (newSegmentReadWriter \<lparr>seq = 0, ind = 0, dir = ''wal'', sizeHint = 100\<rparr>)
        ([], 10) []
     = ((10, Some (ErrTornWrite ''checksum'')),
        \<lparr>srw_segment = \<lparr>seq = 0, ind = 0, dir = ''wal'', sizeHint = 100\<rparr>,
         srw_deframer = Some \<lparr>d_crc = 0, d_nBytes = 0\<rparr>,
         srw_framer = Some \<lparr>f_crc = 0, f_nBytes = 10\<rparr>\<rparr>,
        ([0, 0, 0, 0, 0, 0, 0, 136, 0, 0], 10))"
proof -
  have l1: "srw_framer (newSegmentReadWriter s) = Some newFramer" for s
    by (simp add: newSegmentReadWriter_def)
  have l2: "srw_deframer (newSegmentReadWriter s) = Some newDeframer" for s
    by (simp add: newSegmentReadWriter_def)
  note a = srw_frame_result [OF l1 l2 frame_empty_buf,
      of "\<lparr>seq = 0, ind = 0, dir = ''wal'', sizeHint = 20\<rparr>"]
  note b = srw_frame_result [OF l1 l2 frame_empty_buf,
      of "\<lparr>seq = 0, ind = 0, dir = ''wal'', sizeHint = 21\<rparr>"]
  note c = srw_frame_result [OF l1 l2 frame_empty_eof,
      of "\<lparr>seq = 0, ind = 0, dir = ''wal'', sizeHint = 100\<rparr>"]
  note d = srw_frame_result [OF l1 l2 frame_empty_limited,
      of "\<lparr>seq = 0, ind = 0, dir = ''wal'', sizeHint = 100\<rparr>"]
  show ?thesis
    using a b c d
    by (simp add: newSegmentReadWriter_def newDeframer_def wrap64_def)
qed

text \<open>
  C4 as stated does not hold: a frame write that failed is reported as
  \<open>errSegmentSizeReached\<close> when the failure is \<open>io.EOF\<close>, whatever the byte count, and
  also when the failure is a torn write and the bytes that did get written reach
  \<open>sizeHint\<close>.
\<close>

theorem srw_frame_counterexample:
  "snd (fst (frame eofWrite newFramer [] [])) = Some EOF
   \<and> snd (fst (srw_frame eofWrite
        (newSegmentReadWriter \<lparr>seq = 0, ind = 0, dir = ''wal'', sizeHint = 100\<rparr>) [] []))
      = Some ErrSegmentSizeReached
   \<and> snd (fst (frame limitedWrite newFramer ([], 10) [])) = Some (ErrTornWrite ''checksum'')
   \<and> snd (fst (srw_frame limitedWrite
        (newSegmentReadWriter \<lparr>seq = 0, ind = 0, dir = ''wal'', sizeHint = 10\<rparr>) ([], 10) []))
      = Some ErrSegmentSizeReached"
  by (simp add: srw_frame_def newSegmentReadWriter_def frame_empty_eof frame_empty_limited
      newDeframer_def wrap64_def)

section \<open>The segments of a directory\<close>

subsection \<open>The loop over the published paths\<close>

lemma getSeqInd_parses:
  assumes "parses p"
  shows "\<exists>ix. getSeqInd p = (seqOf p, ix, None)
           \<and> segmentOf d sh p = \<lparr>seq = seqOf p, ind = ix, dir = d, sizeHint = sh\<rparr>"
  using assms by (cases "getSeqInd p") (simp add: parses_def seqOf_def segmentOf_def)

lemma pubLoop_contiguous:
  "list_all parses ps \<Longrightarrow> contiguous (m # map seqOf ps) \<Longrightarrow>
     pubLoop d sh ps True m acc
       = (acc @ map (segmentOf d sh) ps, True, last (m # map seqOf ps), None)"
proof (induction ps arbitrary: m acc)
  case Nil
  show ?case by simp
next
  case (Cons p ps)
  have "parses p"
    using Cons.prems(1) by simp
  then obtain ix where p: "getSeqInd p = (seqOf p, ix, None)"
    and sg: "segmentOf d sh p = \<lparr>seq = seqOf p, ind = ix, dir = d, sizeHint = sh\<rparr>"
    using getSeqInd_parses [of p d sh] by blast
  have s: "seqOf p = m + 1" and c: "contiguous (seqOf p # map seqOf ps)"
    using Cons.prems(2) by auto
  have r: "list_all parses ps"
    using Cons.prems(1) by simp
  have "pubLoop d sh (p # ps) True m acc
      = pubLoop d sh ps True (seqOf p) (acc @ [segmentOf d sh p])"
    using s by (simp add: p sg)
  then show ?case
    using Cons.IH [OF r c] by simp
qed

lemma pubLoop_gap:
  "list_all parses ps \<Longrightarrow> \<not> contiguous (m # map seqOf ps) \<Longrightarrow>
     snd (snd (snd (pubLoop d sh ps True m acc)))
       = Some (ErrCorruption ''sequences must be contiguous'')"
proof (induction ps arbitrary: m acc)
  case Nil
  then show ?case by simp
next
  case (Cons p ps)
  have "parses p"
    using Cons.prems(1) by simp
  then obtain ix where p: "getSeqInd p = (seqOf p, ix, None)"
    and sg: "segmentOf d sh p = \<lparr>seq = seqOf p, ind = ix, dir = d, sizeHint = sh\<rparr>"
    using getSeqInd_parses [of p d sh] by blast
  have r: "list_all parses ps"
    using Cons.prems(1) by simp
  show ?case
  proof (cases "seqOf p = m + 1")
    case True
    then have c: "\<not> contiguous (seqOf p # map seqOf ps)"
      using Cons.prems(2) by simp
    have "pubLoop d sh (p # ps) True m acc
        = pubLoop d sh ps True (seqOf p) (acc @ [segmentOf d sh p])"
      using True by (simp add: p sg)
    then show ?thesis
      using Cons.IH [OF r c] by simp
  next
    case False
    then show ?thesis
      by (simp add: p)
  qed
qed

lemma pubLoop_first:
  assumes "list_all parses (p # ps)"
  shows "pubLoop d sh (p # ps) False m acc
       = pubLoop d sh ps True (seqOf p) (acc @ [segmentOf d sh p])"
proof -
  have "parses p"
    using assms by simp
  then obtain ix where p: "getSeqInd p = (seqOf p, ix, None)"
    and sg: "segmentOf d sh p = \<lparr>seq = seqOf p, ind = ix, dir = d, sizeHint = sh\<rparr>"
    using getSeqInd_parses [of p d sh] by blast
  show ?thesis
    by (simp add: p sg)
qed

lemma pubLoop_published:
  assumes "list_all parses ps" and "contiguous (map seqOf ps)"
  shows "pubLoop d sh ps False 0 []
       = (map (segmentOf d sh) ps, ps \<noteq> [], (if ps = [] then 0 else seqOf (last ps)), None)"
proof (cases ps)
  case Nil
  then show ?thesis by simp
next
  case (Cons p qs)
  have r: "list_all parses qs"
    using assms(1) Cons by simp
  have c: "contiguous (seqOf p # map seqOf qs)"
    using assms(2) Cons by simp
  have l: "last (seqOf p # map seqOf qs) = seqOf (last (p # qs))"
    by (simp add: last_map)
  show ?thesis
    using pubLoop_contiguous [OF r c, of d sh "[segmentOf d sh p]"] l
    unfolding Cons by (simp add: pubLoop_first [OF assms(1) [unfolded Cons]] del: pubLoop.simps)
qed

lemma pubLoop_published_gap:
  assumes "list_all parses ps" and "\<not> contiguous (map seqOf ps)"
  shows "snd (snd (snd (pubLoop d sh ps False 0 [])))
       = Some (ErrCorruption ''sequences must be contiguous'')"
proof (cases ps)
  case Nil
  then show ?thesis using assms(2) by simp
next
  case (Cons p qs)
  have r: "list_all parses qs"
    using assms(1) Cons by simp
  have c: "\<not> contiguous (seqOf p # map seqOf qs)"
    using assms(2) Cons by simp
  show ?thesis
    using pubLoop_gap [OF r c, of d sh "[segmentOf d sh p]"]
    unfolding Cons by (simp add: pubLoop_first [OF assms(1) [unfolded Cons]] del: pubLoop.simps)
qed

subsection \<open>The errors of \<open>findSegments\<close>\<close>

text \<open>
  C8 (as amended).  Let \<open>getSegmentPaths\<close> succeed, with the published paths \<open>pub\<close> and
  the scratch paths \<open>scr\<close>, and let every published path parse.  Then the error of
  \<open>findSegments\<close> is
  \<^item> the corruption error for the scratches when there is more than one scratch path;
  \<^item> else the corruption error for the sequence numbers when those of the published
    paths, in the order of the paths, are not each the one before plus one (as
    \<open>uint64\<close>);
  \<^item> else the corruption error for the scratch when the one scratch path parses, there
    is a published path, and the scratch's sequence number is not that of the last
    published path plus one;
  \<^item> else \<open>nil\<close>.

  With no scratch path, or with one that does not parse, and contiguous published
  sequence numbers, \<open>findSegments\<close> returns the published segments, the non-existing
  segment as the scratch, and no error: the scratch that does not parse is as good as
  none.
\<close>

theorem findSegments_errors:
  assumes walk: "getSegmentPaths os d = (pub, scr, None)"
    and names: "list_all parses pub"
  shows "snd (snd (findSegments os d sh)) =
           (if 1 < length scr
            then Some (ErrCorruption ''data corruption: there must be at most 1 outstanding scratch'')
            else if \<not> contiguous (map seqOf pub)
            then Some (ErrCorruption ''sequences must be contiguous'')
            else if length scr = 1 \<and> parses (scr ! 0) \<and> pub \<noteq> []
                    \<and> seqOf (scr ! 0) \<noteq> seqOf (last pub) + 1
            then Some (ErrCorruption ''data corruption: outstanding scratch seq must be 1+ largest'')
            else None)
       \<and> ((scr = [] \<or> (length scr = 1 \<and> \<not> parses (scr ! 0))) \<and> contiguous (map seqOf pub)
            \<longrightarrow> findSegments os d sh = (map (segmentOf d sh) pub, nonExistingSegment, None))"
proof (cases "1 < length scr")
  case True
  then show ?thesis
    using walk by (auto simp add: findSegments_def)
next
  case few: False
  show ?thesis
  proof (cases "contiguous (map seqOf pub)")
    case False
    obtain a b c where l: "pubLoop d sh pub False 0 [] = (a, b, c, Some (ErrCorruption ''sequences must be contiguous''))"
      using pubLoop_published_gap [OF names False, of d sh]
      by (cases "pubLoop d sh pub False 0 []") auto
    show ?thesis
      using few False walk by (simp add: findSegments_def l)
  next
    case True
    note l = pubLoop_published [OF names True, of d sh]
    show ?thesis
    proof (cases "length scr = 1")
      case False
      then have "scr = []" using few by (cases scr) auto
      then show ?thesis
        using few True walk by (simp add: findSegments_def l)
    next
      case one: True
      show ?thesis
      proof (cases "parses (scr ! 0)")
        case False
        then obtain a b e where g: "getSeqInd (scr ! 0) = (a, b, Some e)"
          by (cases "getSeqInd (scr ! 0)") (auto simp add: parses_def)
        show ?thesis
          using few True one False walk by (simp add: findSegments_def l g)
      next
        case p: True
        obtain ix where g: "getSeqInd (scr ! 0) = (seqOf (scr ! 0), ix, None)"
          using getSeqInd_parses [OF p] by blast
        show ?thesis
          using few True one p walk by (simp add: findSegments_def l g)
      qed
    qed
  qed
qed

subsection \<open>Some directories\<close>

lemma getSeqInd_P1:
  "getSeqInd ''wal/0000000000000001-0000000000000000.seg'' = (1, 0, None)"
  by code_simp

lemma getSeqInd_P2:
  "getSeqInd ''wal/0000000000000002-0000000000000003.seg'' = (2, 3, None)"
  by code_simp

lemma getSeqInd_P3:
  "getSeqInd ''wal/0000000000000003-0000000000000004.seg'' = (3, 4, None)"
  by code_simp

lemma getSeqInd_S3:
  "getSeqInd ''wal.tmp/0000000000000003-0000000000000005.seg'' = (3, 5, None)"
  by code_simp

lemma getSeqInd_S5:
  "getSeqInd ''wal.tmp/0000000000000005-0000000000000005.seg'' = (5, 5, None)"
  by code_simp

lemma getSeqInd_SX:
  "getSeqInd ''wal.tmp/x.seg'' = (0, 0, Some ErrFileName)"
  by code_simp

lemma getSegmentPaths_A:
  "getSegmentPaths
     (walDirs [''0000000000000002-0000000000000003.seg'',
               ''0000000000000001-0000000000000000.seg'', ''notes.txt'']
              [''0000000000000003-0000000000000005.seg'']) ''wal''
   = ([''wal/0000000000000001-0000000000000000.seg'',
       ''wal/0000000000000002-0000000000000003.seg''],
      [''wal.tmp/0000000000000003-0000000000000005.seg''], None)"
  by code_simp

lemma getSegmentPaths_B:
  "getSegmentPaths
     (walDirs [''0000000000000001-0000000000000000.seg'',
               ''0000000000000003-0000000000000004.seg''] []) ''wal''
   = ([''wal/0000000000000001-0000000000000000.seg'',
       ''wal/0000000000000003-0000000000000004.seg''], [], None)"
  by code_simp

lemma getSegmentPaths_C:
  "getSegmentPaths
     (walDirs [''0000000000000001-0000000000000000.seg''] [''x.seg'']) ''wal''
   = ([''wal/0000000000000001-0000000000000000.seg''], [''wal.tmp/x.seg''], None)"
  by code_simp

lemma getSegmentPaths_D:
  "getSegmentPaths
     (walDirs [''0000000000000001-0000000000000000.seg'']
              [''0000000000000005-0000000000000005.seg'']) ''wal''
   = ([''wal/0000000000000001-0000000000000000.seg''],
      [''wal.tmp/0000000000000005-0000000000000005.seg''], None)"
  by code_simp

lemma getSegmentPaths_E:
  "getSegmentPaths
     (walDirs [''0000000000000001-0000000000000000.seg'']
              [''0000000000000005-0000000000000005.seg'',
               ''0000000000000003-0000000000000005.seg'']) ''wal''
   = ([''wal/0000000000000001-0000000000000000.seg''],
      [''wal.tmp/0000000000000003-0000000000000005.seg'',
       ''wal.tmp/0000000000000005-0000000000000005.seg''], None)"
  by code_simp

text \<open>
  The theorem at work on five directories: two published segments out of order in the
  walk and the scratch that follows them; a missing sequence number; a scratch whose name
  does not parse; a scratch too far ahead; two scratches.
\<close>

theorem findSegments_errors_witness:
  "snd (snd (findSegments
     (walDirs [''0000000000000002-0000000000000003.seg'',
               ''0000000000000001-0000000000000000.seg'', ''notes.txt'']
              [''0000000000000003-0000000000000005.seg'']) ''wal'' 64)) = None
   \<and> snd (snd (findSegments
     (walDirs [''0000000000000001-0000000000000000.seg'',
               ''0000000000000003-0000000000000004.seg''] []) ''wal'' 64))
     = Some (ErrCorruption ''sequences must be contiguous'')
   \<and> findSegments
     (walDirs [''0000000000000001-0000000000000000.seg''] [''x.seg'']) ''wal'' 64
     = ([\<lparr>seq = 1, ind = 0, dir = ''wal'', sizeHint = 64\<rparr>], nonExistingSegment, None)
   \<and> snd (snd (findSegments
     (walDirs [''0000000000000001-0000000000000000.seg'']
              [''0000000000000005-0000000000000005.seg'']) ''wal'' 64))
     = Some (ErrCorruption ''data corruption: outstanding scratch seq must be 1+ largest'')
   \<and> snd (snd (findSegments
     (walDirs [''0000000000000001-0000000000000000.seg'']
              [''0000000000000005-0000000000000005.seg'',
               ''0000000000000003-0000000000000005.seg'']) ''wal'' 64))
     = Some (ErrCorruption ''data corruption: there must be at most 1 outstanding scratch'')"
proof -
  note ev = parses_def seqOf_def segmentOf_def getSeqInd_P1 getSeqInd_P2 getSeqInd_P3
    getSeqInd_S3 getSeqInd_S5 getSeqInd_SX
  have p12: "list_all parses [''wal/0000000000000001-0000000000000000.seg'',
       ''wal/0000000000000002-0000000000000003.seg'']"
    by (simp add: ev)
  have p13: "list_all parses [''wal/0000000000000001-0000000000000000.seg'',
       ''wal/0000000000000003-0000000000000004.seg'']"
    by (simp add: ev)
  have p1: "list_all parses [''wal/0000000000000001-0000000000000000.seg'']"
    by (simp add: ev)
  note a = findSegments_errors [OF getSegmentPaths_A p12, of 64]
  note b = findSegments_errors [OF getSegmentPaths_B p13, of 64]
  note c = findSegments_errors [OF getSegmentPaths_C p1, of 64]
  note d = findSegments_errors [OF getSegmentPaths_D p1, of 64]
  note e = findSegments_errors [OF getSegmentPaths_E p1, of 64]
  have A: "snd (snd (findSegments
     (walDirs [''0000000000000002-0000000000000003.seg'',
               ''0000000000000001-0000000000000000.seg'', ''notes.txt'']
              [''0000000000000003-0000000000000005.seg'']) ''wal'' 64)) = None"
    using a by (simp add: ev)
  have B: "snd (snd (findSegments
     (walDirs [''0000000000000001-0000000000000000.seg'',
               ''0000000000000003-0000000000000004.seg''] []) ''wal'' 64))
     = Some (ErrCorruption ''sequences must be contiguous'')"
    using b by (simp add: ev)
  have C: "findSegments
     (walDirs [''0000000000000001-0000000000000000.seg''] [''x.seg'']) ''wal'' 64
     = ([\<lparr>seq = 1, ind = 0, dir = ''wal'', sizeHint = 64\<rparr>], nonExistingSegment, None)"
    using c by (simp add: ev)
  have D: "snd (snd (findSegments
     (walDirs [''0000000000000001-0000000000000000.seg'']
              [''0000000000000005-0000000000000005.seg'']) ''wal'' 64))
     = Some (ErrCorruption ''data corruption: outstanding scratch seq must be 1+ largest'')"
    using d by (simp add: ev)
  have E: "snd (snd (findSegments
     (walDirs [''0000000000000001-0000000000000000.seg'']
              [''0000000000000005-0000000000000005.seg'',
               ''0000000000000003-0000000000000005.seg'']) ''wal'' 64))
     = Some (ErrCorruption ''data corruption: there must be at most 1 outstanding scratch'')"
    using e by (simp add: ev)
  show ?thesis
    using A B C D E by (simp only: simp_thms)
qed

text \<open>
  C8 as stated does not hold.  Two published segments with the sequence number 1 leave
  no gap, and \<open>findSegments\<close> fails with the corruption error for the sequence numbers.
  And with a gap between the published sequence numbers 1 and 3, \<open>findSegments\<close> fails
  with the error of \<open>getSeqInd\<close>, not with a corruption error, when a published path
  before them does not parse.
\<close>

theorem findSegments_counterexample:
  "map seqOf [''wal/0000000000000001-0000000000000000.seg'',
              ''wal/0000000000000001-0000000000000001.seg''] = [1, 1]
   \<and> findSegments
       (walDirs [''0000000000000001-0000000000000000.seg'',
                 ''0000000000000001-0000000000000001.seg''] []) ''wal'' 64
     = ([\<lparr>seq = 1, ind = 0, dir = ''wal'', sizeHint = 64\<rparr>], nonExistingSegment,
        Some (ErrCorruption ''sequences must be contiguous''))
   \<and> findSegments
       (walDirs [''0000000000000001-0000000000000000.seg'',
                 ''0000000000000003-0000000000000004.seg'', ''-.seg''] []) ''wal'' 64
     = ([], nonExistingSegment, Some ErrFileName)"
  by code_simp

end
